theory Spec2Isabelle
  imports Complex_Main "HOL-Library.Word"
begin

section \<open>Python values\<close>

text \<open>
  The editor is a PyQt5 program over PIL images (\<^verbatim>\<open>src/image_editor.py\<close>). Python's
  \<^verbatim>\<open>float\<close> is modelled by \<^typ>\<open>real\<close>: offsets, scale factors and the zoom factor are
  exact here, where the program rounds to a double. Every concrete evaluation below uses
  halves, quarters and integers only, which a double holds exactly. Qt's C \<^verbatim>\<open>int\<close>
  coordinates are \<^typ>\<open>int\<close>: pointer positions are far from the 32-bit range.
\<close>

datatype py_error = IndexError | ZeroDivisionError | AttributeError | TypeError | ValueError

text \<open>\<^verbatim>\<open>int(x)\<close> of a float truncates toward zero.\<close>

definition py_int :: "real \<Rightarrow> int" where
  "py_int q = (if 0 \<le> q then \<lfloor>q\<rfloor> else \<lceil>q\<rceil>)"

text \<open>\<^verbatim>\<open>a % b\<close> for floats and positive \<^verbatim>\<open>b\<close>: the result is in \<^verbatim>\<open>[0, b)\<close>.\<close>

definition py_fmod :: "real \<Rightarrow> real \<Rightarrow> real" where
  "py_fmod a b = a - b * of_int \<lfloor>a / b\<rfloor>"

text \<open>
  A list comprehension \<^verbatim>\<open>[f(i) for i in xs]\<close>: the first call that raises ends it.
\<close>

fun comprehension :: "('a \<Rightarrow> py_error + 'b) \<Rightarrow> 'a list \<Rightarrow> py_error + 'b list" where
  "comprehension f [] = Inr []"
| "comprehension f (x # xs) =
     (case f x of
        Inl e \<Rightarrow> Inl e
      | Inr v \<Rightarrow> (case comprehension f xs of Inl e \<Rightarrow> Inl e | Inr vs \<Rightarrow> Inr (v # vs)))"

text \<open>\<^verbatim>\<open>xs[i]\<close> for a list and a non-negative index.\<close>

definition py_index :: "'a list \<Rightarrow> nat \<Rightarrow> py_error + 'a" where
  "py_index xs i = (if i < length xs then Inr (xs ! i) else Inl IndexError)"

section \<open>PIL images\<close>

text \<open>
  An image is its mode, its size and its pixels in row-major order, each pixel the list
  of its 8-bit bands. The modes are the 8-bit greyscale and colour modes, with and
  without alpha. \<^verbatim>\<open>Image.copy()\<close> returns a buffer of its own; images are values
  here, so a copy is the image itself, and the one place where the program draws into
  a buffer in place (\<^verbatim>\<open>apply_drawing\<close>) is written as a replacement of the current
  image: the program never lets the current image share its buffer with a stack entry
  (every push and every restore goes through \<^verbatim>\<open>copy()\<close>).
\<close>

datatype mode = Mode_L | Mode_LA | Mode_RGB | Mode_RGBA

type_synonym pixel = "8 word list"

record image =
  mode :: mode
  width :: nat
  height :: nat
  pixels :: "pixel list"

fun bands :: "mode \<Rightarrow> nat" where
  "bands Mode_L = 1"
| "bands Mode_LA = 2"
| "bands Mode_RGB = 3"
| "bands Mode_RGBA = 4"

definition valid_image :: "image \<Rightarrow> bool" where
  "valid_image im =
     (length (pixels im) = width im * height im \<and>
      list_all (\<lambda>p. length p = bands (mode im)) (pixels im))"

definition Image_copy :: "image \<Rightarrow> image" where
  "Image_copy im = im"

text \<open>\<^verbatim>\<open>im.getpixel((x, y))\<close>; PIL raises IndexError outside the image.\<close>

definition getpixel :: "image \<Rightarrow> nat \<times> nat \<Rightarrow> py_error + pixel" where
  "getpixel im xy =
     (case xy of (x, y) \<Rightarrow>
        if x < width im \<and> y < height im then Inr (pixels im ! (y * width im + x))
        else Inl IndexError)"

text \<open>A new image of the given size whose pixel at \<open>(x, y)\<close> is \<open>f (x, y)\<close>.\<close>

definition new_image :: "mode \<Rightarrow> nat \<Rightarrow> nat \<Rightarrow> (nat \<times> nat \<Rightarrow> pixel) \<Rightarrow> image" where
  "new_image m w h f =
     \<lparr>mode = m, width = w, height = h,
      pixels = map (\<lambda>i. f (i mod w, i div w)) [0..<w * h]\<rparr>"

text \<open>The pixel at \<open>(x, y)\<close> as the C core reads it inside the image.\<close>

definition px :: "image \<Rightarrow> nat \<times> nat \<Rightarrow> pixel" where
  "px im xy = (case xy of (x, y) \<Rightarrow> pixels im ! (y * width im + x))"

subsection \<open>Mode conversion\<close>

text \<open>
  \<^verbatim>\<open>Image.convert\<close> between the 8-bit modes (libImaging/Convert.c): the luminance of a
  colour pixel is the ITU-R 601-2 luma in 16-bit fixed point,
  \<^verbatim>\<open>(R*19595 + G*38470 + B*7471 + 0x8000) >> 16\<close>; a greyscale value becomes three equal
  bands; a missing alpha band is filled with 255 and an alpha band the target lacks is
  dropped.
\<close>

definition band :: "pixel \<Rightarrow> nat \<Rightarrow> 8 word" where
  "band p i = (if i < length p then p ! i else 0)"

definition L24 :: "8 word \<Rightarrow> 8 word \<Rightarrow> 8 word \<Rightarrow> 8 word" where
  "L24 r g b = of_nat ((unat r * 19595 + unat g * 38470 + unat b * 7471 + 32768) div 65536)"

fun luminance :: "mode \<Rightarrow> pixel \<Rightarrow> 8 word" where
  "luminance Mode_L p = band p 0"
| "luminance Mode_LA p = band p 0"
| "luminance Mode_RGB p = L24 (band p 0) (band p 1) (band p 2)"
| "luminance Mode_RGBA p = L24 (band p 0) (band p 1) (band p 2)"

fun alpha :: "mode \<Rightarrow> pixel \<Rightarrow> 8 word" where
  "alpha Mode_L p = 255"
| "alpha Mode_LA p = band p 1"
| "alpha Mode_RGB p = 255"
| "alpha Mode_RGBA p = band p 3"

fun rgb :: "mode \<Rightarrow> pixel \<Rightarrow> pixel" where
  "rgb Mode_L p = [band p 0, band p 0, band p 0]"
| "rgb Mode_LA p = [band p 0, band p 0, band p 0]"
| "rgb Mode_RGB p = [band p 0, band p 1, band p 2]"
| "rgb Mode_RGBA p = [band p 0, band p 1, band p 2]"

fun convert_pixel :: "mode \<Rightarrow> mode \<Rightarrow> pixel \<Rightarrow> pixel" where
  "convert_pixel src Mode_L p = [luminance src p]"
| "convert_pixel src Mode_LA p = [luminance src p, alpha src p]"
| "convert_pixel src Mode_RGB p = rgb src p"
| "convert_pixel src Mode_RGBA p = rgb src p @ [alpha src p]"

definition Image_convert :: "mode \<Rightarrow> image \<Rightarrow> image" where
  "Image_convert m im =
     (if mode im = m then Image_copy im
      else im\<lparr>mode := m, pixels := map (convert_pixel (mode im) m) (pixels im)\<rparr>)"

subsection \<open>Point tables\<close>

text \<open>
  \<^verbatim>\<open>Image.point(lut)\<close> with a callable on an 8-bit image first builds the table
  \<^verbatim>\<open>[lut(i) for i in range(256)] * bands\<close>, then hands it to the C core, which wants
  integers: any other entry is a TypeError. Each band value is then replaced by its table
  entry (the table of band \<open>k\<close> starts at \<open>256 * k\<close>; all copies are equal).
\<close>

datatype pyval = PyInt int | PyTuple "int list"

fun is_PyInt :: "pyval \<Rightarrow> bool" where
  "is_PyInt (PyInt n) = True"
| "is_PyInt (PyTuple ns) = False"

fun the_PyInt :: "pyval \<Rightarrow> int" where
  "the_PyInt (PyInt n) = n"
| "the_PyInt (PyTuple ns) = 0"

definition Image_point :: "(nat \<Rightarrow> py_error + pyval) \<Rightarrow> image \<Rightarrow> py_error + image" where
  "Image_point lut im =
     (case comprehension lut [0..<256] of
        Inl e \<Rightarrow> Inl e
      | Inr table \<Rightarrow>
          if list_all is_PyInt table
          then Inr (im\<lparr>pixels :=
                 map (map (\<lambda>v. of_int (the_PyInt (table ! unat v)))) (pixels im)\<rparr>)
          else Inl TypeError)"

subsection \<open>Geometry\<close>

text \<open>
  \<^verbatim>\<open>Image.crop(box)\<close>: the result has the size of the box (an inverted box gives size
  zero) and is zero outside the source.
\<close>

definition Image_crop :: "image \<Rightarrow> int \<times> int \<times> int \<times> int \<Rightarrow> image" where
  "Image_crop im box =
     (case box of (x0, y0, x1, y1) \<Rightarrow>
        new_image (mode im) (nat (x1 - x0)) (nat (y1 - y0))
          (\<lambda>(x, y).
             let sx = x0 + int x; sy = y0 + int y in
             if 0 \<le> sx \<and> sx < int (width im) \<and> 0 \<le> sy \<and> sy < int (height im)
             then px im (nat sx, nat sy)
             else replicate (bands (mode im)) 0))"

text \<open>
  \<^verbatim>\<open>Image.transpose(method)\<close> (libImaging/Geometry.c). The rotations are named by their
  counter-clockwise angle: \<^verbatim>\<open>ROTATE_90\<close> writes source pixel \<open>(x, y)\<close> to
  \<open>(y, W - 1 - x)\<close>, \<^verbatim>\<open>ROTATE_270\<close> writes it to \<open>(H - 1 - y, x)\<close>.
\<close>

datatype transpose_method =
  FLIP_LEFT_RIGHT | FLIP_TOP_BOTTOM | ROTATE_90 | ROTATE_180 | ROTATE_270

fun Image_transpose :: "transpose_method \<Rightarrow> image \<Rightarrow> image" where
  "Image_transpose FLIP_LEFT_RIGHT im =
     new_image (mode im) (width im) (height im) (\<lambda>(x, y). px im (width im - 1 - x, y))"
| "Image_transpose FLIP_TOP_BOTTOM im =
     new_image (mode im) (width im) (height im) (\<lambda>(x, y). px im (x, height im - 1 - y))"
| "Image_transpose ROTATE_90 im =
     new_image (mode im) (height im) (width im) (\<lambda>(x, y). px im (width im - 1 - y, x))"
| "Image_transpose ROTATE_180 im =
     new_image (mode im) (width im) (height im)
       (\<lambda>(x, y). px im (width im - 1 - x, height im - 1 - y))"
| "Image_transpose ROTATE_270 im =
     new_image (mode im) (height im) (width im) (\<lambda>(x, y). px im (y, height im - 1 - x))"

definition ImageOps_mirror :: "image \<Rightarrow> image" where
  "ImageOps_mirror im = Image_transpose FLIP_LEFT_RIGHT im"

definition ImageOps_flip :: "image \<Rightarrow> image" where
  "ImageOps_flip im = Image_transpose FLIP_TOP_BOTTOM im"

text \<open>
  \<^verbatim>\<open>Image.rotate(angle, expand=...)\<close> turns the image counter-clockwise by \<open>angle\<close>
  degrees. It reduces the angle modulo 360 and takes a fast path for the right angles:
  0 is a copy, 180 a \<^verbatim>\<open>ROTATE_180\<close> transpose, and 90 and 270 a transpose when the
  canvas expands (or the image is square). Every other angle is resampled through an
  affine transform with floating-point trigonometry: that primitive is a parameter.
  The resize filter, the enhancers, the convolution kernels and the line rasteriser of
  the C core (\<^verbatim>\<open>ImagingDrawLine\<close> and \<^verbatim>\<open>ImagingDrawWideLine\<close>, which take integer end
  points) are parameters too; each may raise.
\<close>

datatype kernel = BLUR | SHARPEN | FIND_EDGES

record library =
  Image_resize :: "image \<Rightarrow> int \<times> int \<Rightarrow> py_error + image"
  rotate_affine :: "image \<Rightarrow> real \<Rightarrow> bool \<Rightarrow> py_error + image"
  Brightness_enhance :: "image \<Rightarrow> real \<Rightarrow> py_error + image"
  Contrast_enhance :: "image \<Rightarrow> real \<Rightarrow> py_error + image"
  Color_enhance :: "image \<Rightarrow> real \<Rightarrow> py_error + image"
  Image_filter :: "image \<Rightarrow> kernel \<Rightarrow> py_error + image"
  ImagingDrawLine :: "image \<Rightarrow> (int \<times> int) list \<Rightarrow> string \<Rightarrow> int \<Rightarrow> py_error + image"

text \<open>
  \<^verbatim>\<open>ImageDraw.line(xy, fill, width)\<close>: the coordinates arrive as C doubles, and
  \<^verbatim>\<open>_draw_lines\<close> casts each of them with \<^verbatim>\<open>(int)\<close> before it calls the rasteriser. The
  cast of a double to \<^verbatim>\<open>int\<close> drops the fraction, toward zero.
\<close>

definition c_int_cast :: "real \<Rightarrow> int" where
  "c_int_cast d = (if d < 0 then - \<lfloor>- d\<rfloor> else \<lfloor>d\<rfloor>)"

definition ImageDraw_line :: "library \<Rightarrow> image \<Rightarrow> (real \<times> real) list \<Rightarrow> string \<Rightarrow> int \<Rightarrow> py_error + image" where
  "ImageDraw_line lib im xy fill w =
     ImagingDrawLine lib im (map (\<lambda>p. (c_int_cast (fst p), c_int_cast (snd p))) xy) fill w"

definition Image_rotate :: "library \<Rightarrow> image \<Rightarrow> real \<Rightarrow> bool \<Rightarrow> py_error + image" where
  "Image_rotate lib im angle expand =
     (let a = py_fmod angle 360 in
      if a = 0 then Inr (Image_copy im)
      else if a = 180 then Inr (Image_transpose ROTATE_180 im)
      else if (a = 90 \<or> a = 270) \<and> (expand \<or> width im = height im)
      then Inr (Image_transpose (if a = 90 then ROTATE_90 else ROTATE_270) im)
      else rotate_affine lib im a expand)"

section \<open>Qt geometry\<close>

datatype QPoint = QPoint (point_x: int) (point_y: int)

datatype QSize = QSize (size_width: int) (size_height: int)

text \<open>
  A \<^verbatim>\<open>QRect\<close> stores its left, top, right and bottom coordinates, all inclusive, so
  its width is \<open>right - left + 1\<close>. \<^verbatim>\<open>QRect(p, q)\<close> takes \<open>p\<close> as top-left and \<open>q\<close> as
  bottom-right. \<^verbatim>\<open>normalized()\<close> (Qt 5) swaps the sides of an axis only when the width
  on it is negative, so the result has a width and a height of at least zero.
\<close>

datatype QRect = QRect_coords (rect_left: int) (rect_top: int) (rect_right: int) (rect_bottom: int)

definition QRect :: "QPoint \<Rightarrow> QPoint \<Rightarrow> QRect" where
  "QRect p q = QRect_coords (point_x p) (point_y p) (point_x q) (point_y q)"

definition rect_x :: "QRect \<Rightarrow> int" where
  "rect_x r = rect_left r"

definition rect_y :: "QRect \<Rightarrow> int" where
  "rect_y r = rect_top r"

definition rect_width :: "QRect \<Rightarrow> int" where
  "rect_width r = rect_right r - rect_left r + 1"

definition rect_height :: "QRect \<Rightarrow> int" where
  "rect_height r = rect_bottom r - rect_top r + 1"

definition normalized :: "QRect \<Rightarrow> QRect" where
  "normalized r =
     (let (l, rt) = (if rect_right r < rect_left r - 1 then (rect_right r, rect_left r)
                     else (rect_left r, rect_right r));
          (t, b) = (if rect_bottom r < rect_top r - 1 then (rect_bottom r, rect_top r)
                    else (rect_top r, rect_bottom r))
      in QRect_coords l t rt b)"

text \<open>
  \<^verbatim>\<open>QSize.scaled(s, Qt.KeepAspectRatio)\<close> and \<^verbatim>\<open>QPixmap.scaled(w, h, Qt.KeepAspectRatio)\<close>,
  as far as the size of the result goes: a null pixmap or an empty target gives a null
  pixmap (size 0 x 0); otherwise the size is fitted inside the target, each side at
  least 1.
\<close>

definition QSize_scaled :: "QSize \<Rightarrow> QSize \<Rightarrow> QSize" where
  "QSize_scaled sz s =
     (if size_width sz = 0 \<or> size_height sz = 0 then s
      else
        let rw = size_height s * size_width sz div size_height sz in
        if rw \<le> size_width s then QSize rw (size_height s)
        else QSize (size_width s) (size_width s * size_height sz div size_width sz))"

definition QPixmap_scaled :: "QSize \<Rightarrow> int \<Rightarrow> int \<Rightarrow> QSize" where
  "QPixmap_scaled sz w h =
     (if size_width sz \<le> 0 \<or> size_height sz \<le> 0 then QSize 0 0
      else if w \<le> 0 \<or> h \<le> 0 then QSize 0 0
      else
        let n = QSize_scaled sz (QSize w h)
        in QSize (max (size_width n) 1) (max (size_height n) 1))"

section \<open>The image label\<close>

text \<open>
  \<^verbatim>\<open>ImageLabel\<close>, the QLabel subclass that records the crop rectangle and the freehand
  paths. Of the label's pixmap only the size is kept (\<open>None\<close>: no pixmap was ever set);
  \<open>label_size\<close> is the widget's size, which the layout sets.
\<close>

record ImageLabel =
  cropping :: bool
  drawing :: bool
  start_point :: "QPoint option"
  end_point :: "QPoint option"
  crop_rect :: "QRect option"
  drawing_lines :: "QPoint list list"
  current_path :: "QPoint list"
  pixmap :: "QSize option"
  label_size :: QSize

definition set_cropping :: "bool \<Rightarrow> ImageLabel \<Rightarrow> ImageLabel" where
  "set_cropping c lbl = lbl\<lparr>cropping := c\<rparr>"

definition set_drawing :: "bool \<Rightarrow> ImageLabel \<Rightarrow> ImageLabel" where
  "set_drawing d lbl = lbl\<lparr>drawing := d\<rparr>"

text \<open>
  The truth value of \<^verbatim>\<open>self.start_point\<close>: \<^verbatim>\<open>None\<close> is false, and so is the null point
  \<^verbatim>\<open>QPoint(0, 0)\<close> (PyQt5 gives QPoint a \<^verbatim>\<open>__bool__\<close> that is \<^verbatim>\<open>not isNull()\<close>).
\<close>

fun truthy_point :: "QPoint option \<Rightarrow> bool" where
  "truthy_point None = False"
| "truthy_point (Some p) = (p \<noteq> QPoint 0 0)"

section \<open>The editor\<close>

text \<open>
  \<^verbatim>\<open>ImageEditor\<close>. Both stacks are Python lists with the top at the end. A handler
  returns what it showed (a message box, or the exception that left it) and the state it
  left behind; a handler that raises keeps the assignments it made before.
\<close>

record ImageEditor =
  current_image :: "image option"
  undo_stack :: "image list"
  redo_stack :: "image list"
  zoom_factor :: real
  brush_color :: string
  brush_size :: int
  image_label :: ImageLabel

datatype icon = Information | Warning | Critical

datatype outcome = Silent | MessageBox icon string string | Raised py_error

definition init :: "QSize \<Rightarrow> ImageEditor" where
  "init sz =
     \<lparr>current_image = None, undo_stack = [], redo_stack = [], zoom_factor = 1,
      brush_color = ''#0000ff'', brush_size = 3,
      image_label =
        \<lparr>cropping = False, drawing = False, start_point = None, end_point = None,
         crop_rect = None, drawing_lines = [], current_path = [], pixmap = None,
         label_size = sz\<rparr>\<rparr>"

text \<open>
  \<^verbatim>\<open>update_display\<close>: the pixmap of the current image (\<^verbatim>\<open>pil2pixmap\<close> keeps the size)
  scaled by the zoom factor.
\<close>

definition pil2pixmap :: "image \<Rightarrow> QSize" where
  "pil2pixmap im =
     (let im' = Image_convert Mode_RGBA im in QSize (int (width im')) (int (height im')))"

definition update_display :: "ImageEditor \<Rightarrow> ImageEditor" where
  "update_display s =
     (case current_image s of
        None \<Rightarrow> s
      | Some im \<Rightarrow>
          let pm = pil2pixmap im;
              w = py_int (of_int (size_width pm) * zoom_factor s);
              h = py_int (of_int (size_height pm) * zoom_factor s)
          in s\<lparr>image_label := (image_label s)\<lparr>pixmap := Some (QPixmap_scaled pm w h)\<rparr>\<rparr>)"

text \<open>
  \<^verbatim>\<open>open_image\<close>. The file dialog and the decoder are the environment: the dialog is
  cancelled, or \<^verbatim>\<open>Image.open\<close> raises (the message is shown), or it returns the image.
  A decoder that fails only later, inside \<^verbatim>\<open>copy()\<close>, is counted with the second
  case, although the program has assigned \<^verbatim>\<open>current_image\<close> by then; it touches
  neither stack nor the zoom factor on that path.
\<close>

datatype opened = Cancelled | OpenFailed string | Decoded image

fun open_image :: "opened \<Rightarrow> ImageEditor \<Rightarrow> outcome \<times> ImageEditor" where
  "open_image Cancelled s = (Silent, s)"
| "open_image (OpenFailed msg) s = (MessageBox Critical ''Error'' msg, s)"
| "open_image (Decoded im) s =
     (Silent,
      update_display
        (s\<lparr>current_image := Some im, undo_stack := [Image_copy im], redo_stack := [],
           zoom_factor := 1\<rparr>))"

definition push_undo :: "ImageEditor \<Rightarrow> ImageEditor" where
  "push_undo s =
     (case current_image s of
        None \<Rightarrow> s
      | Some im \<Rightarrow> s\<lparr>undo_stack := undo_stack s @ [Image_copy im], redo_stack := []\<rparr>)"

definition no_image :: "ImageEditor \<Rightarrow> outcome \<times> ImageEditor" where
  "no_image s = (MessageBox Warning ''Warning'' ''No image loaded.'', s)"

text \<open>
  The common tail of the editing handlers, \<^verbatim>\<open>self.current_image = <result>\<close> and
  \<^verbatim>\<open>self.update_display()\<close>: when the library call raises, neither happens.
\<close>

fun assign_image :: "py_error + image \<Rightarrow> ImageEditor \<Rightarrow> outcome \<times> ImageEditor" where
  "assign_image (Inl e) s = (Raised e, s)"
| "assign_image (Inr im) s = (Silent, update_display (s\<lparr>current_image := Some im\<rparr>))"

subsection \<open>Crop\<close>

definition crop_mode :: "ImageEditor \<Rightarrow> outcome \<times> ImageEditor" where
  "crop_mode s =
     (case current_image s of
        None \<Rightarrow> no_image s
      | Some im \<Rightarrow>
          (MessageBox Information ''Crop''
             ''Drag a rectangle on the image to crop, then release the mouse.'',
           s\<lparr>image_label := set_cropping True (image_label s)\<rparr>))"

text \<open>
  The pieces of \<^verbatim>\<open>crop_image\<close> and \<^verbatim>\<open>apply_drawing\<close>, under the names the source gives
  them: the offsets of the centred pixmap inside the label, the rectangle's origin
  relative to the pixmap, the bounds test, the scale factors and the crop box.
\<close>

definition offset_x :: "ImageLabel \<Rightarrow> QSize \<Rightarrow> real" where
  "offset_x lbl pixmap_size =
     (of_int (size_width (label_size lbl)) - of_int (size_width pixmap_size)) / 2"

definition offset_y :: "ImageLabel \<Rightarrow> QSize \<Rightarrow> real" where
  "offset_y lbl pixmap_size =
     (of_int (size_height (label_size lbl)) - of_int (size_height pixmap_size)) / 2"

definition out_of_bounds :: "real \<Rightarrow> real \<Rightarrow> QRect \<Rightarrow> QSize \<Rightarrow> bool" where
  "out_of_bounds x y rect pixmap_size =
     (x < 0 \<or> y < 0 \<or> x + of_int (rect_width rect) > of_int (size_width pixmap_size)
      \<or> y + of_int (rect_height rect) > of_int (size_height pixmap_size))"

definition scale_x :: "image \<Rightarrow> QSize \<Rightarrow> real" where
  "scale_x im pixmap_size = of_nat (width im) / of_int (size_width pixmap_size)"

definition scale_y :: "image \<Rightarrow> QSize \<Rightarrow> real" where
  "scale_y im pixmap_size = of_nat (height im) / of_int (size_height pixmap_size)"

definition crop_box :: "real \<Rightarrow> real \<Rightarrow> QRect \<Rightarrow> real \<Rightarrow> real \<Rightarrow> int \<times> int \<times> int \<times> int" where
  "crop_box x y rect sx sy =
     (py_int (x * sx), py_int (y * sy),
      py_int ((x + of_int (rect_width rect)) * sx),
      py_int ((y + of_int (rect_height rect)) * sy))"

definition crop_image :: "QRect \<Rightarrow> ImageEditor \<Rightarrow> outcome \<times> ImageEditor" where
  "crop_image rect s =
     (case pixmap (image_label s) of
        None \<Rightarrow> (Silent, s)
      | Some pixmap_size \<Rightarrow>
          let x = of_int (rect_x rect) - offset_x (image_label s) pixmap_size;
              y = of_int (rect_y rect) - offset_y (image_label s) pixmap_size
          in
          if out_of_bounds x y rect pixmap_size
          then (MessageBox Warning ''Crop'' ''Selected area is out of image bounds.'',
                s\<lparr>image_label := set_cropping False (image_label s)\<rparr>)
          else
            (case current_image s of
               None \<Rightarrow> (Raised AttributeError, s)
             | Some im \<Rightarrow>
                 if size_width pixmap_size = 0 \<or> size_height pixmap_size = 0
                 then (Raised ZeroDivisionError, s)
                 else
                   let box = crop_box x y rect (scale_x im pixmap_size) (scale_y im pixmap_size);
                       s1 = push_undo s;
                       s2 = update_display (s1\<lparr>current_image := Some (Image_crop im box)\<rparr>)
                   in (Silent, s2\<lparr>image_label := set_cropping False (image_label s2)\<rparr>)))"

subsection \<open>Resize, rotate, flip, colours, filters\<close>

text \<open>
  The modal dialogs are the environment: \<open>None\<close> is a dialog that was cancelled, and
  \<^verbatim>\<open>resize_image\<close> asks for the height only after the width was accepted.
\<close>

definition resize_image :: "library \<Rightarrow> int option \<Rightarrow> int option \<Rightarrow> ImageEditor \<Rightarrow> outcome \<times> ImageEditor" where
  "resize_image lib new_w new_h s =
     (case current_image s of
        None \<Rightarrow> no_image s
      | Some im \<Rightarrow>
          (case new_w of
             None \<Rightarrow> (Silent, s)
           | Some w \<Rightarrow>
               (case new_h of
                  None \<Rightarrow> (Silent, s)
                | Some h \<Rightarrow> assign_image (Image_resize lib im (w, h)) (push_undo s))))"

definition advanced_rotate :: "library \<Rightarrow> real option \<Rightarrow> ImageEditor \<Rightarrow> outcome \<times> ImageEditor" where
  "advanced_rotate lib angle s =
     (case current_image s of
        None \<Rightarrow> no_image s
      | Some im \<Rightarrow>
          (case angle of
             None \<Rightarrow> (Silent, s)
           | Some a \<Rightarrow> assign_image (Image_rotate lib im (- a) True) (push_undo s)))"

definition flip_horizontal :: "ImageEditor \<Rightarrow> outcome \<times> ImageEditor" where
  "flip_horizontal s =
     (case current_image s of
        None \<Rightarrow> no_image s
      | Some im \<Rightarrow> assign_image (Inr (ImageOps_mirror im)) (push_undo s))"

definition flip_vertical :: "ImageEditor \<Rightarrow> outcome \<times> ImageEditor" where
  "flip_vertical s =
     (case current_image s of
        None \<Rightarrow> no_image s
      | Some im \<Rightarrow> assign_image (Inr (ImageOps_flip im)) (push_undo s))"

definition enhance_all :: "library \<Rightarrow> image \<Rightarrow> real \<times> real \<times> real \<Rightarrow> py_error + image" where
  "enhance_all lib img v =
     (case v of (brightness, contrast, saturation) \<Rightarrow>
        (case Brightness_enhance lib img brightness of
           Inl e \<Rightarrow> Inl e
         | Inr img1 \<Rightarrow>
             (case Contrast_enhance lib img1 contrast of
                Inl e \<Rightarrow> Inl e
              | Inr img2 \<Rightarrow> Color_enhance lib img2 saturation)))"

definition adjust_colors :: "library \<Rightarrow> (real \<times> real \<times> real) option \<Rightarrow> ImageEditor \<Rightarrow> outcome \<times> ImageEditor" where
  "adjust_colors lib accepted s =
     (case current_image s of
        None \<Rightarrow> no_image s
      | Some im \<Rightarrow>
          (case accepted of
             None \<Rightarrow> (Silent, s)
           | Some v \<Rightarrow> assign_image (enhance_all lib im v) (push_undo s)))"

text \<open>
  The sepia table of \<^verbatim>\<open>apply_filter\<close>, built by \<^verbatim>\<open>for i in range(255)\<close>, and the
  callable \<^verbatim>\<open>lambda p: sepia[p]\<close> handed to \<^verbatim>\<open>Image.point\<close>.
\<close>

definition sepia :: "(int \<times> int \<times> int) list" where
  "sepia =
     map (\<lambda>i. (py_int (of_nat (i * 240) / 255), py_int (of_nat (i * 200) / 255),
               py_int (of_nat (i * 145) / 255)))
       [0..<255]"

definition sepia_lut :: "nat \<Rightarrow> py_error + pyval" where
  "sepia_lut p =
     (case py_index sepia p of
        Inl e \<Rightarrow> Inl e
      | Inr (r, g, b) \<Rightarrow> Inr (PyTuple [r, g, b]))"

definition filtered :: "library \<Rightarrow> string \<Rightarrow> image \<Rightarrow> py_error + image" where
  "filtered lib filter_name img =
     (if filter_name = ''Grayscale'' then Inr (Image_convert Mode_RGB (Image_convert Mode_L img))
      else if filter_name = ''Sepia'' then Image_point sepia_lut (Image_convert Mode_L img)
      else if filter_name = ''Blur'' then Image_filter lib img BLUR
      else if filter_name = ''Sharpen'' then Image_filter lib img SHARPEN
      else if filter_name = ''Edge Detection'' then Image_filter lib img FIND_EDGES
      else Inr img)"

definition apply_filter :: "library \<Rightarrow> string \<Rightarrow> ImageEditor \<Rightarrow> outcome \<times> ImageEditor" where
  "apply_filter lib filter_name s =
     (case current_image s of
        None \<Rightarrow> no_image s
      | Some img \<Rightarrow> assign_image (filtered lib filter_name img) (push_undo s))"

subsection \<open>Drawing\<close>

text \<open>
  \<^verbatim>\<open>apply_drawing\<close> maps every recorded path of more than one point to image
  coordinates and draws it into the current image. The mapped coordinates are the
  floats \<open>(point - offset) * scale\<close>; they go to \<^verbatim>\<open>draw.line\<close> as they are, and
  \<^verbatim>\<open>draw.line\<close> casts them to integers. When a call of \<^verbatim>\<open>draw.line\<close> raises, the
  lines drawn before it stay in the image and the recorded paths are not cleared.
\<close>

definition convert_point :: "real \<Rightarrow> real \<Rightarrow> real \<Rightarrow> real \<Rightarrow> QPoint \<Rightarrow> real \<times> real" where
  "convert_point ox oy sx sy point =
     ((of_int (point_x point) - ox) * sx, (of_int (point_y point) - oy) * sy)"

definition converted_paths :: "ImageLabel \<Rightarrow> QSize \<Rightarrow> image \<Rightarrow> (real \<times> real) list list" where
  "converted_paths lbl pixmap_size im =
     map (map (convert_point (offset_x lbl pixmap_size) (offset_y lbl pixmap_size)
                 (scale_x im pixmap_size) (scale_y im pixmap_size)))
       (filter (\<lambda>path. length path > 1) (drawing_lines lbl))"

fun draw_lines :: "library \<Rightarrow> string \<Rightarrow> int \<Rightarrow> (real \<times> real) list list \<Rightarrow> image \<Rightarrow> py_error option \<times> image" where
  "draw_lines lib fill w [] im = (None, im)"
| "draw_lines lib fill w (converted # rest) im =
     (case ImageDraw_line lib im converted fill w of
        Inl e \<Rightarrow> (Some e, im)
      | Inr im' \<Rightarrow> draw_lines lib fill w rest im')"

definition apply_drawing :: "library \<Rightarrow> ImageEditor \<Rightarrow> outcome \<times> ImageEditor" where
  "apply_drawing lib s =
     (case current_image s of
        None \<Rightarrow> (Silent, s)
      | Some im \<Rightarrow>
          if drawing_lines (image_label s) = [] then (Silent, s)
          else
            (case pixmap (image_label s) of
               None \<Rightarrow> (Silent, s)
             | Some pixmap_size \<Rightarrow>
                 if size_width pixmap_size = 0 \<or> size_height pixmap_size = 0
                 then (Raised ZeroDivisionError, s)
                 else
                   (case draw_lines lib (brush_color s) (brush_size s)
                           (converted_paths (image_label s) pixmap_size im) im of
                      (Some e, im') \<Rightarrow> (Raised e, s\<lparr>current_image := Some im'\<rparr>)
                    | (None, im') \<Rightarrow>
                        (Silent,
                         update_display
                           (s\<lparr>current_image := Some im',
                              image_label := (image_label s)\<lparr>drawing_lines := []\<rparr>\<rparr>)))))"

definition toggle_drawing :: "library \<Rightarrow> ImageEditor \<Rightarrow> outcome \<times> ImageEditor" where
  "toggle_drawing lib s =
     (case current_image s of
        None \<Rightarrow> no_image s
      | Some im \<Rightarrow>
          let s1 = s\<lparr>image_label :=
                      set_drawing (\<not> drawing (image_label s)) (image_label s)\<rparr>
          in if drawing (image_label s1) then (Silent, s1) else apply_drawing lib s1)"

definition choose_brush_color :: "string option \<Rightarrow> ImageEditor \<Rightarrow> outcome \<times> ImageEditor" where
  "choose_brush_color color s =
     (case color of None \<Rightarrow> (Silent, s) | Some c \<Rightarrow> (Silent, s\<lparr>brush_color := c\<rparr>))"

definition set_brush_size :: "int option \<Rightarrow> ImageEditor \<Rightarrow> outcome \<times> ImageEditor" where
  "set_brush_size size_in s =
     (case size_in of None \<Rightarrow> (Silent, s) | Some n \<Rightarrow> (Silent, s\<lparr>brush_size := n\<rparr>))"

subsection \<open>Undo, redo, zoom\<close>

definition undo :: "ImageEditor \<Rightarrow> outcome \<times> ImageEditor" where
  "undo s =
     (if length (undo_stack s) > 1
      then
        let s1 = s\<lparr>redo_stack := redo_stack s @ [last (undo_stack s)],
                   undo_stack := butlast (undo_stack s)\<rparr>;
            s2 = s1\<lparr>current_image := Some (Image_copy (last (undo_stack s1)))\<rparr>
        in (Silent, update_display s2)
      else (MessageBox Information ''Undo'' ''No more actions to undo.'', s))"

definition redo :: "ImageEditor \<Rightarrow> outcome \<times> ImageEditor" where
  "redo s =
     (if redo_stack s = []
      then (MessageBox Information ''Redo'' ''No actions to redo.'', s)
      else
        let im = Image_copy (last (redo_stack s));
            s1 = s\<lparr>redo_stack := butlast (redo_stack s), current_image := Some im\<rparr>;
            s2 = s1\<lparr>undo_stack := undo_stack s1 @ [Image_copy im]\<rparr>
        in (Silent, update_display s2))"

definition zoom_in :: "ImageEditor \<Rightarrow> outcome \<times> ImageEditor" where
  "zoom_in s = (Silent, update_display (s\<lparr>zoom_factor := zoom_factor s * (5 / 4)\<rparr>))"

definition zoom_out :: "ImageEditor \<Rightarrow> outcome \<times> ImageEditor" where
  "zoom_out s = (Silent, update_display (s\<lparr>zoom_factor := zoom_factor s / (5 / 4)\<rparr>))"

subsection \<open>Pointer events\<close>

text \<open>
  The label's mouse handlers. A release in cropping mode builds the normalised
  rectangle and hands it to the editor's \<^verbatim>\<open>crop_image\<close> (the label's
  \<^verbatim>\<open>crop_callback\<close>).
\<close>

definition mousePressEvent :: "QPoint \<Rightarrow> ImageEditor \<Rightarrow> outcome \<times> ImageEditor" where
  "mousePressEvent pos s =
     (let lbl = image_label s in
      if cropping lbl
      then (Silent, s\<lparr>image_label := lbl\<lparr>start_point := Some pos, end_point := Some pos\<rparr>\<rparr>)
      else if drawing lbl then (Silent, s\<lparr>image_label := lbl\<lparr>current_path := [pos]\<rparr>\<rparr>)
      else (Silent, s))"

definition mouseMoveEvent :: "QPoint \<Rightarrow> ImageEditor \<Rightarrow> outcome \<times> ImageEditor" where
  "mouseMoveEvent pos s =
     (let lbl = image_label s in
      if cropping lbl \<and> truthy_point (start_point lbl)
      then (Silent, s\<lparr>image_label := lbl\<lparr>end_point := Some pos\<rparr>\<rparr>)
      else if drawing lbl \<and> current_path lbl \<noteq> []
      then (Silent, s\<lparr>image_label := lbl\<lparr>current_path := current_path lbl @ [pos]\<rparr>\<rparr>)
      else (Silent, s))"

definition mouseReleaseEvent :: "QPoint \<Rightarrow> ImageEditor \<Rightarrow> outcome \<times> ImageEditor" where
  "mouseReleaseEvent pos s =
     (let lbl = image_label s in
      if cropping lbl \<and> truthy_point (start_point lbl)
      then
        (case start_point lbl of
           None \<Rightarrow> (Silent, s)
         | Some start \<Rightarrow>
             let rect = normalized (QRect start pos) in
             crop_image rect
               (s\<lparr>image_label :=
                    lbl\<lparr>crop_rect := Some rect, start_point := None, end_point := None\<rparr>\<rparr>))
      else if drawing lbl \<and> current_path lbl \<noteq> []
      then (Silent,
            s\<lparr>image_label :=
                 lbl\<lparr>drawing_lines := drawing_lines lbl @ [current_path lbl @ [pos]],
                     current_path := []\<rparr>\<rparr>)
      else (Silent, s))"

subsection \<open>Sessions\<close>

text \<open>
  One user action or environment event, and a session as the list of them. The
  handlers for saving, the histogram and the layer stub change nothing of the state and
  are left out.
\<close>

datatype event =
    Open opened
  | CropMode
  | MousePress QPoint
  | MouseMove QPoint
  | MouseRelease QPoint
  | Resize "int option" "int option"
  | Rotate "real option"
  | FlipH
  | FlipV
  | AdjustColors "(real \<times> real \<times> real) option"
  | Filter string
  | ToggleDrawing
  | BrushColor "string option"
  | BrushSize "int option"
  | Undo
  | Redo
  | ZoomIn
  | ZoomOut
  | LabelResized QSize

fun handle :: "library \<Rightarrow> event \<Rightarrow> ImageEditor \<Rightarrow> outcome \<times> ImageEditor" where
  "handle lib (Open r) s = open_image r s"
| "handle lib CropMode s = crop_mode s"
| "handle lib (MousePress p) s = mousePressEvent p s"
| "handle lib (MouseMove p) s = mouseMoveEvent p s"
| "handle lib (MouseRelease p) s = mouseReleaseEvent p s"
| "handle lib (Resize w h) s = resize_image lib w h s"
| "handle lib (Rotate a) s = advanced_rotate lib a s"
| "handle lib FlipH s = flip_horizontal s"
| "handle lib FlipV s = flip_vertical s"
| "handle lib (AdjustColors v) s = adjust_colors lib v s"
| "handle lib (Filter n) s = apply_filter lib n s"
| "handle lib ToggleDrawing s = toggle_drawing lib s"
| "handle lib (BrushColor c) s = choose_brush_color c s"
| "handle lib (BrushSize n) s = set_brush_size n s"
| "handle lib Undo s = undo s"
| "handle lib Redo s = redo s"
| "handle lib ZoomIn s = zoom_in s"
| "handle lib ZoomOut s = zoom_out s"
| "handle lib (LabelResized sz) s =
     (Silent, s\<lparr>image_label := (image_label s)\<lparr>label_size := sz\<rparr>\<rparr>)"

fun run :: "library \<Rightarrow> event list \<Rightarrow> ImageEditor \<Rightarrow> ImageEditor" where
  "run lib [] s = s"
| "run lib (e # es) s = run lib es (snd (handle lib e s))"

section \<open>Notions the properties use\<close>

text \<open>
  The image of the most recent successful load in a session that started from a load
  of \<open>a\<close>.
\<close>

fun loaded_after :: "image \<Rightarrow> event \<Rightarrow> image" where
  "loaded_after a (Open (Decoded im)) = im"
| "loaded_after a e = a"

definition last_loaded :: "image \<Rightarrow> event list \<Rightarrow> image" where
  "last_loaded a evs = foldl loaded_after a evs"

text \<open>The bottom of the undo stack is the image \<open>a\<close>.\<close>

definition anchored :: "image \<Rightarrow> ImageEditor \<Rightarrow> bool" where
  "anchored a s = (undo_stack s \<noteq> [] \<and> hd (undo_stack s) = a)"

text \<open>
  Concrete sessions need a library. In this one every parametric primitive raises; the
  sessions evaluated below call none of them unless they say so.
\<close>

definition unavailable :: library where
  "unavailable =
     \<lparr>Image_resize = (\<lambda>im sz. Inl ValueError),
      rotate_affine = (\<lambda>im a expand. Inl ValueError),
      Brightness_enhance = (\<lambda>im f. Inl ValueError),
      Contrast_enhance = (\<lambda>im f. Inl ValueError),
      Color_enhance = (\<lambda>im f. Inl ValueError),
      Image_filter = (\<lambda>im k. Inl ValueError),
      ImagingDrawLine = (\<lambda>im xy fill w. Inl ValueError)\<rparr>"

text \<open>A greyscale image of two pixels side by side.\<close>

definition grey2 :: image where
  "grey2 = \<lparr>mode = Mode_L, width = 2, height = 1, pixels = [[10], [20]]\<rparr>"

definition grey2_mirrored :: image where
  "grey2_mirrored = \<lparr>mode = Mode_L, width = 2, height = 1, pixels = [[20], [10]]\<rparr>"

text \<open>A single white pixel.\<close>

definition white1 :: image where
  "white1 = \<lparr>mode = Mode_RGB, width = 1, height = 1, pixels = [[255, 255, 255]]\<rparr>"

text \<open>
  The editor right after it loaded \<open>im\<close> into a fresh window whose label has the size
  of the image, so that the pixmap fills the label (offsets 0) at zoom 1 (scale 1).
\<close>

definition loaded :: "image \<Rightarrow> ImageEditor" where
  "loaded im = snd (open_image (Decoded im) (init (QSize (int (width im)) (int (height im)))))"

text \<open>
  The origin of a crop rectangle relative to the pixmap (\<open>x\<close> and \<open>y\<close> in
  \<^verbatim>\<open>crop_image\<close>), the four corners of the region it spans there, and a point outside
  \<open>[0, pixmap width] \<times> [0, pixmap height]\<close>.
\<close>

definition rel_x :: "ImageLabel \<Rightarrow> QSize \<Rightarrow> QRect \<Rightarrow> real" where
  "rel_x lbl pixmap_size rect = of_int (rect_x rect) - offset_x lbl pixmap_size"

definition rel_y :: "ImageLabel \<Rightarrow> QSize \<Rightarrow> QRect \<Rightarrow> real" where
  "rel_y lbl pixmap_size rect = of_int (rect_y rect) - offset_y lbl pixmap_size"

definition corners :: "real \<Rightarrow> real \<Rightarrow> QRect \<Rightarrow> (real \<times> real) list" where
  "corners x y rect =
     [(x, y), (x + of_int (rect_width rect), y), (x, y + of_int (rect_height rect)),
      (x + of_int (rect_width rect), y + of_int (rect_height rect))]"

definition outside :: "QSize \<Rightarrow> real \<times> real \<Rightarrow> bool" where
  "outside pixmap_size c =
     (fst c < 0 \<or> of_int (size_width pixmap_size) < fst c \<or>
      snd c < 0 \<or> of_int (size_height pixmap_size) < snd c)"

text \<open>
  The two opposite corners of the rectangle under the stroke mapping of
  \<^verbatim>\<open>apply_drawing\<close>, \<open>(point - offset) * scale\<close>.
\<close>

definition corner0 :: "ImageLabel \<Rightarrow> QSize \<Rightarrow> image \<Rightarrow> QRect \<Rightarrow> real \<times> real" where
  "corner0 lbl pixmap_size im rect =
     convert_point (offset_x lbl pixmap_size) (offset_y lbl pixmap_size)
       (scale_x im pixmap_size) (scale_y im pixmap_size)
       (QPoint (rect_x rect) (rect_y rect))"

definition corner1 :: "ImageLabel \<Rightarrow> QSize \<Rightarrow> image \<Rightarrow> QRect \<Rightarrow> real \<times> real" where
  "corner1 lbl pixmap_size im rect =
     convert_point (offset_x lbl pixmap_size) (offset_y lbl pixmap_size)
       (scale_x im pixmap_size) (scale_y im pixmap_size)
       (QPoint (rect_x rect + rect_width rect) (rect_y rect + rect_height rect))"


text \<open>
  A session in which the label is one pixel wider than the pixmap (the offset is a
  half) and one stroke from (0, 0) to (2, 0) has been recorded; the stroke starts half a
  pixel to the left of the pixmap.
\<close>

definition offset_session :: ImageEditor where
  "offset_session =
     run unavailable
       [LabelResized (QSize 3 1), ToggleDrawing, MousePress (QPoint 0 0), MouseRelease (QPoint 2 0)]
       (loaded grey2)"

text \<open>
  Python's \<^verbatim>\<open>int()\<close> on both coordinates of a mapped point, and what reaches the
  rasteriser of the C core when the paths it is given are drawn one after the other.
\<close>

definition truncated :: "real \<times> real \<Rightarrow> int \<times> int" where
  "truncated c = (py_int (fst c), py_int (snd c))"

fun rasterise_paths :: "library \<Rightarrow> string \<Rightarrow> int \<Rightarrow> (int \<times> int) list list \<Rightarrow> image \<Rightarrow> py_error option \<times> image" where
  "rasterise_paths lib fill w [] im = (None, im)"
| "rasterise_paths lib fill w (path # rest) im =
     (case ImagingDrawLine lib im path fill w of
        Inl e \<Rightarrow> (Some e, im)
      | Inr im' \<Rightarrow> rasterise_paths lib fill w rest im')"

text \<open>A single half-transparent colour pixel.\<close>

definition rgba1 :: image where
  "rgba1 = \<lparr>mode = Mode_RGBA, width = 1, height = 1, pixels = [[10, 20, 30, 128]]\<rparr>"

text \<open>
  A greyscale image of 100 by 100 pixels whose value at \<open>(x, y)\<close> is the row \<open>y\<close>: its
  top row is 0 and its bottom row 99, so its corners tell the two quarter turns apart.
\<close>

definition ramp100 :: image where
  "ramp100 = new_image Mode_L 100 100 (\<lambda>(x, y). [of_nat y])"

text \<open>
  The three-band image whose bands at every pixel all hold the luminance of the
  pixel of \<open>im\<close> there.
\<close>

definition grey_of :: "image \<Rightarrow> image" where
  "grey_of im =
     im\<lparr>mode := Mode_RGB,
        pixels := map (\<lambda>p. [luminance (mode im) p, luminance (mode im) p, luminance (mode im) p])
                    (pixels im)\<rparr>"

text \<open>
  What it means for \<open>out\<close> to be \<open>im\<close> turned clockwise, as seen on the screen, by
  \<open>angle\<close> degrees about its centre on a canvas that bounds the turned image. Image
  coordinates have \<open>y\<close> pointing down, so a clockwise turn takes the offset \<open>(p, q)\<close>
  from the centre to \<open>(p cos - q sin, p sin + q cos)\<close>. The centre of the output pixel
  \<open>(x, y)\<close>, at offset \<open>(u, v)\<close> from the centre of the output, therefore shows the
  source point at offset \<open>(u cos + v sin, - u sin + v cos)\<close> from the centre of the
  source: that is \<open>source_point\<close>. The turned rectangle is \<open>w |cos| + h |sin|\<close> wide and
  \<open>w |sin| + h |cos|\<close> high; the canvas is at least that large and less than two
  pixels larger. Every output pixel whose source point lies in the source holds the
  source pixel that contains the point.
\<close>

definition cos_deg :: "real \<Rightarrow> real" where
  "cos_deg a = cos (a * pi / 180)"

definition sin_deg :: "real \<Rightarrow> real" where
  "sin_deg a = sin (a * pi / 180)"

definition source_point :: "real \<Rightarrow> nat \<times> nat \<Rightarrow> nat \<times> nat \<Rightarrow> nat \<times> nat \<Rightarrow> real \<times> real" where
  "source_point angle src_size out_size xy =
     (case (src_size, out_size, xy) of ((w, h), (w', h'), (x, y)) \<Rightarrow>
        let u = real x + 1 / 2 - real w' / 2;
            v = real y + 1 / 2 - real h' / 2
        in (real w / 2 + u * cos_deg angle + v * sin_deg angle,
            real h / 2 - u * sin_deg angle + v * cos_deg angle))"

definition extent_x :: "real \<Rightarrow> image \<Rightarrow> real" where
  "extent_x angle im =
     real (width im) * \<bar>cos_deg angle\<bar> + real (height im) * \<bar>sin_deg angle\<bar>"

definition extent_y :: "real \<Rightarrow> image \<Rightarrow> real" where
  "extent_y angle im =
     real (width im) * \<bar>sin_deg angle\<bar> + real (height im) * \<bar>cos_deg angle\<bar>"

definition rotated_clockwise :: "real \<Rightarrow> image \<Rightarrow> image \<Rightarrow> bool" where
  "rotated_clockwise angle im out =
     (mode out = mode im \<and>
      extent_x angle im \<le> real (width out) \<and> real (width out) < extent_x angle im + 2 \<and>
      extent_y angle im \<le> real (height out) \<and> real (height out) < extent_y angle im + 2 \<and>
      (\<forall>x y. x < width out \<and> y < height out \<longrightarrow>
         (case source_point angle (width im, height im) (width out, height out) (x, y) of
            (sx, sy) \<Rightarrow>
              0 \<le> sx \<and> sx < real (width im) \<and> 0 \<le> sy \<and> sy < real (height im) \<longrightarrow>
              getpixel out (x, y) = getpixel im (nat \<lfloor>sx\<rfloor>, nat \<lfloor>sy\<rfloor>))))"

text \<open>
  The contract of PIL's affine rotation path, which the model takes as a parameter:
  for an angle in \<open>[0, 360)\<close> and \<^verbatim>\<open>expand=True\<close> it returns the image turned
  counter-clockwise by that angle, that is, clockwise by its negation.
\<close>

definition affine_rotates :: "library \<Rightarrow> bool" where
  "affine_rotates lib =
     (\<forall>im a. 0 \<le> a \<and> a < 360 \<longrightarrow>
        (\<exists>out. rotate_affine lib im a True = Inr out \<and> rotated_clockwise (- a) im out))"

text \<open>
  A library that meets the contract: its affine rotation samples the source at the
  source point of every output pixel, on the smallest canvas that bounds the turned
  image.
\<close>

definition rotate_nearest :: "real \<Rightarrow> image \<Rightarrow> image" where
  "rotate_nearest a im =
     (let w' = nat \<lceil>extent_x (- a) im\<rceil>;
          h' = nat \<lceil>extent_y (- a) im\<rceil>
      in new_image (mode im) w' h'
           (\<lambda>xy. case source_point (- a) (width im, height im) (w', h') xy of
                    (sx, sy) \<Rightarrow>
                      if 0 \<le> sx \<and> sx < real (width im) \<and> 0 \<le> sy \<and> sy < real (height im)
                      then px im (nat \<lfloor>sx\<rfloor>, nat \<lfloor>sy\<rfloor>)
                      else replicate (bands (mode im)) 0))"

definition resampling :: library where
  "resampling = unavailable\<lparr>rotate_affine := (\<lambda>im a expand. Inr (rotate_nearest a im))\<rparr>"

section \<open>Basic facts\<close>


lemma update_display_frame [simp]:
  "current_image (update_display s) = current_image s"
  "undo_stack (update_display s) = undo_stack s"
  "redo_stack (update_display s) = redo_stack s"
  "zoom_factor (update_display s) = zoom_factor s"
  by (simp_all add: update_display_def Let_def split: option.split)

lemma push_undo_stack:
  "undo_stack (push_undo s) = undo_stack s \<or> (\<exists>im. undo_stack (push_undo s) = undo_stack s @ [im])"
  by (simp add: push_undo_def split: option.split)

lemma push_undo_current [simp]: "current_image (push_undo s) = current_image s"
  by (simp add: push_undo_def split: option.split)

lemma assign_image_stack [simp]:
  "undo_stack (snd (assign_image r s)) = undo_stack s"
  "redo_stack (snd (assign_image r s)) = redo_stack s"
  by (cases r; simp)+

section \<open>The bottom of the undo stack\<close>

lemma anchored_frame [simp]:
  "anchored a (s\<lparr>image_label := l\<rparr>) = anchored a s"
  "anchored a (s\<lparr>current_image := c\<rparr>) = anchored a s"
  "anchored a (s\<lparr>zoom_factor := z\<rparr>) = anchored a s"
  "anchored a (s\<lparr>brush_color := col\<rparr>) = anchored a s"
  "anchored a (s\<lparr>brush_size := n\<rparr>) = anchored a s"
  "anchored a (update_display s) = anchored a s"
  by (simp_all add: anchored_def)

lemma anchored_push: "anchored a s \<Longrightarrow> anchored a (push_undo s)"
  using push_undo_stack [of s] by (auto simp: anchored_def)

lemma anchored_assign: "anchored a s \<Longrightarrow> anchored a (snd (assign_image r (push_undo s)))"
  using anchored_push [of a s] by (simp add: anchored_def)

lemma anchored_no_image [simp]: "anchored a (snd (no_image s)) = anchored a s"
  by (simp add: no_image_def)

lemma anchored_crop_mode: "anchored a s \<Longrightarrow> anchored a (snd (crop_mode s))"
  by (simp add: crop_mode_def split: option.split)

lemma anchored_crop_image: "anchored a s \<Longrightarrow> anchored a (snd (crop_image rect s))"
  by (simp add: crop_image_def Let_def anchored_push split: option.split)

lemma anchored_resize_image: "anchored a s \<Longrightarrow> anchored a (snd (resize_image lib w h s))"
  by (simp add: resize_image_def anchored_assign split: option.split)

lemma anchored_advanced_rotate: "anchored a s \<Longrightarrow> anchored a (snd (advanced_rotate lib r s))"
  by (simp add: advanced_rotate_def anchored_assign split: option.split)

lemma anchored_flip_horizontal: "anchored a s \<Longrightarrow> anchored a (snd (flip_horizontal s))"
  by (simp add: flip_horizontal_def anchored_assign del: assign_image.simps split: option.split)

lemma anchored_flip_vertical: "anchored a s \<Longrightarrow> anchored a (snd (flip_vertical s))"
  by (simp add: flip_vertical_def anchored_assign del: assign_image.simps split: option.split)

lemma anchored_adjust_colors: "anchored a s \<Longrightarrow> anchored a (snd (adjust_colors lib v s))"
  by (simp add: adjust_colors_def anchored_assign split: option.split)

lemma anchored_apply_filter: "anchored a s \<Longrightarrow> anchored a (snd (apply_filter lib n s))"
  by (simp add: apply_filter_def anchored_assign split: option.split)

lemma anchored_apply_drawing: "anchored a s \<Longrightarrow> anchored a (snd (apply_drawing lib s))"
  by (simp add: apply_drawing_def split: option.split prod.split)

lemma anchored_toggle_drawing: "anchored a s \<Longrightarrow> anchored a (snd (toggle_drawing lib s))"
  by (simp add: toggle_drawing_def Let_def anchored_apply_drawing split: option.split)

lemma anchored_undo: "anchored a s \<Longrightarrow> anchored a (snd (undo s))"
  by (cases "undo_stack s" rule: rev_cases)
     (auto simp: undo_def Let_def anchored_def hd_append split: if_splits)

lemma anchored_redo: "anchored a s \<Longrightarrow> anchored a (snd (redo s))"
  by (simp add: redo_def Let_def anchored_def)

lemma anchored_mouse:
  assumes "anchored a s"
  shows "anchored a (snd (mousePressEvent p s))"
    and "anchored a (snd (mouseMoveEvent p s))"
    and "anchored a (snd (mouseReleaseEvent p s))"
  using assms
  by (simp_all add: mousePressEvent_def mouseMoveEvent_def mouseReleaseEvent_def Let_def
        anchored_crop_image split: option.split)

lemma anchored_open: "anchored (loaded_after a (Open r)) (snd (open_image r s)) = (case r of Decoded im \<Rightarrow> True | _ \<Rightarrow> anchored a s)"
  by (cases r) (simp_all add: anchored_def Image_copy_def)

lemma anchored_handle: "anchored a s \<Longrightarrow> anchored (loaded_after a e) (snd (handle lib e s))"
  by (cases e)
     (simp_all add: anchored_open anchored_crop_mode anchored_mouse anchored_resize_image
        anchored_advanced_rotate anchored_flip_horizontal anchored_flip_vertical
        anchored_adjust_colors anchored_apply_filter anchored_toggle_drawing
        choose_brush_color_def set_brush_size_def anchored_undo anchored_redo
        zoom_in_def zoom_out_def split: option.split opened.split)

lemma anchored_run: "anchored a s \<Longrightarrow> anchored (last_loaded a evs) (run lib evs s)"
proof (induction evs arbitrary: a s)
  case Nil
  then show ?case by (simp add: last_loaded_def)
next
  case (Cons e evs)
  from Cons.prems have "anchored (loaded_after a e) (snd (handle lib e s))"
    by (rule anchored_handle)
  then have "anchored (last_loaded (loaded_after a e) evs) (run lib evs (snd (handle lib e s)))"
    by (rule Cons.IH)
  then show ?case by (simp add: last_loaded_def)
qed

lemma undo_noop: "length (undo_stack s) \<le> 1 \<Longrightarrow> undo s = (MessageBox Information ''Undo'' ''No more actions to undo.'', s)"
  by (simp add: undo_def)

lemma undo_noop_repeat: "length (undo_stack s) \<le> 1 \<Longrightarrow> ((\<lambda>t. snd (undo t)) ^^ n) s = s"
  by (induction n) (simp_all add: undo_noop)

text \<open>
  C5. In every state reached from a successful load by any sequence of events, the undo
  stack is not empty and its bottom entry is the image of the most recent successful
  load. When that entry is the only one, \<^verbatim>\<open>undo\<close> shows ``No more actions to undo.''
  and leaves the whole state as it is, however often it is repeated.
\<close>

theorem undo_stack_keeps_initial_snapshot:
  "undo_stack (run lib evs (snd (open_image (Decoded im) s0))) \<noteq> [] \<and>
   hd (undo_stack (run lib evs (snd (open_image (Decoded im) s0)))) = last_loaded im evs \<and>
   (length (undo_stack (run lib evs (snd (open_image (Decoded im) s0)))) = 1 \<longrightarrow>
      (\<forall>n. fst (undo (((\<lambda>t. snd (undo t)) ^^ n) (run lib evs (snd (open_image (Decoded im) s0)))))
             = MessageBox Information ''Undo'' ''No more actions to undo.'' \<and>
           ((\<lambda>t. snd (undo t)) ^^ n) (run lib evs (snd (open_image (Decoded im) s0)))
             = run lib evs (snd (open_image (Decoded im) s0))))"
proof -
  let ?s = "run lib evs (snd (open_image (Decoded im) s0))"
  have "anchored im (snd (open_image (Decoded im) s0))"
    by (simp add: anchored_def Image_copy_def)
  then have "anchored (last_loaded im evs) ?s"
    by (rule anchored_run)
  then have a: "undo_stack ?s \<noteq> []" and b: "hd (undo_stack ?s) = last_loaded im evs"
    by (simp_all add: anchored_def)
  have c: "fst (undo (((\<lambda>t. snd (undo t)) ^^ n) ?s)) = MessageBox Information ''Undo'' ''No more actions to undo.'' \<and>
           ((\<lambda>t. snd (undo t)) ^^ n) ?s = ?s" if "length (undo_stack ?s) = 1" for n
    using that by (simp add: undo_noop_repeat undo_noop)
  from a b c show ?thesis by blast
qed

theorem undo_stack_keeps_initial_snapshot_witness:
  "length (undo_stack (run unavailable [FlipH, Undo] (snd (open_image (Decoded grey2) (init (QSize 2 1)))))) = 1 \<and>
   hd (undo_stack (run unavailable [FlipH, Undo] (snd (open_image (Decoded grey2) (init (QSize 2 1)))))) = grey2 \<and>
   fst (undo (((\<lambda>t. snd (undo t)) ^^ 3)
               (run unavailable [FlipH, Undo] (snd (open_image (Decoded grey2) (init (QSize 2 1)))))))
     = MessageBox Information ''Undo'' ''No more actions to undo.'' \<and>
   ((\<lambda>t. snd (undo t)) ^^ 3)
      (run unavailable [FlipH, Undo] (snd (open_image (Decoded grey2) (init (QSize 2 1)))))
     = run unavailable [FlipH, Undo] (snd (open_image (Decoded grey2) (init (QSize 2 1))))"
proof -
  let ?s = "run unavailable [FlipH, Undo] (snd (open_image (Decoded grey2) (init (QSize 2 1))))"
  have one: "length (undo_stack ?s) = 1"
    by code_simp
  have last: "last_loaded grey2 [FlipH, Undo] = grey2"
    by (simp add: last_loaded_def)
  from undo_stack_keeps_initial_snapshot [of unavailable "[FlipH, Undo]" grey2 "init (QSize 2 1)"]
  show ?thesis
    unfolding last using one by blast
qed

section \<open>Loading\<close>

text \<open>
  C10. A successful load shows no message and leaves the zoom factor at exactly 1,
  whatever the state, and so the zoom factor, before it.
\<close>

theorem open_image_resets_zoom:
  "fst (open_image (Decoded im) s) = Silent \<and> zoom_factor (snd (open_image (Decoded im) s)) = 1"
  by simp

section \<open>Undo and redo around one edit\<close>

text \<open>
  Every editing handler ends in a push of the image it found and an assignment of the
  new one. After a load and one such edit, \<^verbatim>\<open>undo\<close> restores the image from before
  the edit; \<^verbatim>\<open>redo\<close> then pops the entry \<^verbatim>\<open>undo\<close> moved over, which is the snapshot
  taken before the edit, so it restores that image again and not the edited one.
\<close>

lemma undo_redo_one_edit:
  assumes "current_image s = Some im" and "undo_stack s = [im]"
  shows "current_image (snd (undo (snd (assign_image (Inr im') (push_undo s))))) = Some im"
    and "current_image (snd (redo (snd (undo (snd (assign_image (Inr im') (push_undo s))))))) = Some im"
  using assms by (simp_all add: undo_def redo_def push_undo_def Let_def Image_copy_def)

text \<open>
  C1, evaluated: load the two-pixel image, mirror it, undo, redo. The mirror gives the
  swapped image and \<^verbatim>\<open>undo\<close> the loaded one, as C1 says. The \<^verbatim>\<open>redo\<close> leaves the
  loaded image in place, where C1 asks for the mirrored one.
\<close>

theorem redo_after_undo_returns_snapshot:
  "current_image (run unavailable [FlipH] (loaded grey2)) = Some grey2_mirrored \<and>
   current_image (run unavailable [FlipH, Undo] (loaded grey2)) = Some grey2 \<and>
   current_image (run unavailable [FlipH, Undo, Redo] (loaded grey2)) = Some grey2 \<and>
   grey2_mirrored \<noteq> grey2"
  by code_simp

section \<open>Sepia\<close>

text \<open>
  The sepia table has the 255 entries of \<^verbatim>\<open>range(255)\<close>, and \<^verbatim>\<open>Image.point\<close> asks
  the callable for all 256 values: the last call indexes past the table, whatever the
  image.
\<close>

lemma comprehension_raises:
  "\<forall>x \<in> set xs. \<exists>v. f x = Inr v \<Longrightarrow> f y = Inl e \<Longrightarrow> comprehension f (xs @ y # ys) = Inl e"
proof (induction xs)
  case Nil
  then show ?case by simp
next
  case (Cons x xs)
  then obtain v where "f x = Inr v" by auto
  with Cons show ?case by simp
qed

lemma length_sepia: "length sepia = 255"
  by (simp add: sepia_def)

lemma sepia_lut_255: "sepia_lut 255 = Inl IndexError"
  by (simp add: sepia_lut_def py_index_def length_sepia)

lemma sepia_lut_below: "p < 255 \<Longrightarrow> \<exists>v. sepia_lut p = Inr v"
  by (simp add: sepia_lut_def py_index_def length_sepia split: prod.split)

lemma Image_point_sepia: "Image_point sepia_lut im = Inl IndexError"
proof -
  have "[0..<256] = [0..<255] @ 255 # []"
    using upt_Suc_append [of 0 255] by simp
  moreover have "comprehension sepia_lut ([0..<255] @ 255 # []) = Inl IndexError"
    by (rule comprehension_raises) (simp_all add: sepia_lut_255 sepia_lut_below)
  ultimately show ?thesis
    by (simp add: Image_point_def)
qed

lemma apply_filter_sepia:
  "current_image s = Some im \<Longrightarrow> apply_filter lib ''Sepia'' s = (Raised IndexError, push_undo s)"
  by (simp add: apply_filter_def filtered_def Image_point_sepia)

text \<open>
  C2, evaluated on a single white pixel: the Sepia filter raises IndexError after the
  snapshot was pushed; the current image is still the white pixel, where C2 asks for
  (240, 200, 145).
\<close>

theorem sepia_raises_IndexError:
  "fst (apply_filter lib ''Sepia'' (loaded white1)) = Raised IndexError \<and>
   current_image (snd (apply_filter lib ''Sepia'' (loaded white1))) = Some white1 \<and>
   undo_stack (snd (apply_filter lib ''Sepia'' (loaded white1))) = [white1, white1]"
proof -
  have "current_image (loaded white1) = Some white1" and "undo_stack (loaded white1) = [white1]"
    by (simp_all add: loaded_def Image_copy_def)
  then show ?thesis
    by (simp add: apply_filter_sepia push_undo_def Image_copy_def)
qed

section \<open>Drawing takes no snapshot\<close>

lemma apply_drawing_no_snapshot:
  "undo_stack (snd (apply_drawing lib s)) = undo_stack s \<and>
   redo_stack (snd (apply_drawing lib s)) = redo_stack s"
  by (simp add: apply_drawing_def split: option.split prod.split)

lemma stroke_session_state:
  "current_image (run lib [FlipH, Undo, ToggleDrawing, MousePress (QPoint 0 0), MouseRelease (QPoint 1 0)] (loaded grey2)) = Some grey2"
  "undo_stack (run lib [FlipH, Undo, ToggleDrawing, MousePress (QPoint 0 0), MouseRelease (QPoint 1 0)] (loaded grey2)) = [grey2]"
  "redo_stack (run lib [FlipH, Undo, ToggleDrawing, MousePress (QPoint 0 0), MouseRelease (QPoint 1 0)] (loaded grey2)) = [grey2]"
  "brush_color (run lib [FlipH, Undo, ToggleDrawing, MousePress (QPoint 0 0), MouseRelease (QPoint 1 0)] (loaded grey2)) = ''#0000ff''"
  "brush_size (run lib [FlipH, Undo, ToggleDrawing, MousePress (QPoint 0 0), MouseRelease (QPoint 1 0)] (loaded grey2)) = 3"
  "image_label (run lib [FlipH, Undo, ToggleDrawing, MousePress (QPoint 0 0), MouseRelease (QPoint 1 0)] (loaded grey2)) =
     \<lparr>cropping = False, drawing = True, start_point = None, end_point = None, crop_rect = None,
      drawing_lines = [[QPoint 0 0, QPoint 1 0]], current_path = [], pixmap = Some (QSize 2 1),
      label_size = QSize 2 1\<rparr>"
  by code_simp+

lemma run_snoc: "run lib (evs @ [e]) s = snd (handle lib e (run lib evs s))"
  by (induction evs arbitrary: s) simp_all

text \<open>
  C3, evaluated: load the two-pixel image, mirror it and undo (both stacks now hold the
  loaded image), then draw one stroke and leave drawing mode. The current image is what
  \<^verbatim>\<open>draw.line\<close> made of it, the undo stack got no entry and the redo stack was not
  cleared, where C3 asks for a snapshot before every mutation.
\<close>

theorem apply_drawing_takes_no_snapshot:
  "undo_stack (run lib [FlipH, Undo, ToggleDrawing, MousePress (QPoint 0 0), MouseRelease (QPoint 1 0), ToggleDrawing] (loaded grey2)) = [grey2] \<and>
   redo_stack (run lib [FlipH, Undo, ToggleDrawing, MousePress (QPoint 0 0), MouseRelease (QPoint 1 0), ToggleDrawing] (loaded grey2)) = [grey2] \<and>
   current_image (run lib [FlipH, Undo, ToggleDrawing, MousePress (QPoint 0 0), MouseRelease (QPoint 1 0), ToggleDrawing] (loaded grey2)) =
     Some (case ImageDraw_line lib grey2 [(0, 0), (1, 0)] ''#0000ff'' 3 of Inl e \<Rightarrow> grey2 | Inr im' \<Rightarrow> im')"
proof -
  define pre where
    "pre = run lib [FlipH, Undo, ToggleDrawing, MousePress (QPoint 0 0), MouseRelease (QPoint 1 0)] (loaded grey2)"
  have pre:
    "current_image pre = Some grey2" "undo_stack pre = [grey2]" "redo_stack pre = [grey2]"
    "brush_color pre = ''#0000ff''" "brush_size pre = 3"
    "image_label pre =
       \<lparr>cropping = False, drawing = True, start_point = None, end_point = None, crop_rect = None,
        drawing_lines = [[QPoint 0 0, QPoint 1 0]], current_path = [], pixmap = Some (QSize 2 1),
        label_size = QSize 2 1\<rparr>"
    unfolding pre_def by (rule stroke_session_state)+
  have last: "run lib [FlipH, Undo, ToggleDrawing, MousePress (QPoint 0 0), MouseRelease (QPoint 1 0), ToggleDrawing] (loaded grey2)
        = snd (toggle_drawing lib pre)"
    unfolding pre_def
    using run_snoc [of lib "[FlipH, Undo, ToggleDrawing, MousePress (QPoint 0 0), MouseRelease (QPoint 1 0)]" ToggleDrawing "loaded grey2"]
    by simp
  have conv:
    "converted_paths
       \<lparr>cropping = False, drawing = False, start_point = None, end_point = None,
        crop_rect = None, drawing_lines = [[QPoint 0 0, QPoint 1 0]], current_path = [],
        pixmap = Some (QSize 2 1), label_size = QSize 2 1\<rparr>
       (QSize 2 1) grey2 = [[(0, 0), (1, 0)]]"
    by (simp add: converted_paths_def convert_point_def offset_x_def offset_y_def
          scale_x_def scale_y_def grey2_def)
  show ?thesis
    unfolding last
    by (simp add: toggle_drawing_def apply_drawing_def set_drawing_def pre conv Let_def
          split: sum.split)
qed

section \<open>Crop: the bounds check\<close>

lemma normalized_width: "0 \<le> rect_width (normalized r)"
  by (simp add: normalized_def rect_width_def Let_def split: if_splits)

lemma normalized_height: "0 \<le> rect_height (normalized r)"
  by (simp add: normalized_def rect_height_def Let_def split: if_splits)

lemma corner_outside_out_of_bounds:
  assumes "0 \<le> rect_width rect" and "0 \<le> rect_height rect"
    and "list_ex (outside pixmap_size) (corners x y rect)"
  shows "out_of_bounds x y rect pixmap_size"
  using assms by (auto simp: corners_def outside_def out_of_bounds_def)

lemma crop_image_rejected:
  assumes "pixmap (image_label s) = Some pixmap_size"
    and "out_of_bounds (rel_x (image_label s) pixmap_size rect) (rel_y (image_label s) pixmap_size rect) rect pixmap_size"
  shows "crop_image rect s =
           (MessageBox Warning ''Crop'' ''Selected area is out of image bounds.'',
            s\<lparr>image_label := set_cropping False (image_label s)\<rparr>)"
  using assms by (simp add: crop_image_def rel_x_def rel_y_def)

text \<open>
  C4. The rectangle that reaches \<^verbatim>\<open>crop_image\<close> is normalised. When any corner of
  the region it spans, taken relative to the pixmap, lies outside
  \<open>[0, pixmap width] \<times> [0, pixmap height]\<close>, the crop is refused with the warning
  ``Selected area is out of image bounds.'', and the current image and both stacks are
  as before.
\<close>

theorem crop_rejects_out_of_bounds:
  assumes "pixmap (image_label s) = Some pixmap_size"
    and "list_ex (outside pixmap_size)
           (corners (rel_x (image_label s) pixmap_size (normalized r))
                    (rel_y (image_label s) pixmap_size (normalized r)) (normalized r))"
  shows "fst (crop_image (normalized r) s)
           = MessageBox Warning ''Crop'' ''Selected area is out of image bounds.'' \<and>
         current_image (snd (crop_image (normalized r) s)) = current_image s \<and>
         undo_stack (snd (crop_image (normalized r) s)) = undo_stack s \<and>
         redo_stack (snd (crop_image (normalized r) s)) = redo_stack s"
proof -
  have "out_of_bounds (rel_x (image_label s) pixmap_size (normalized r))
          (rel_y (image_label s) pixmap_size (normalized r)) (normalized r) pixmap_size"
    using normalized_width normalized_height assms(2) by (rule corner_outside_out_of_bounds)
  with assms(1) show ?thesis
    by (simp add: crop_image_rejected)
qed

lemma loaded_grey2:
  "pixmap (image_label (loaded grey2)) = Some (QSize 2 1)"
  "current_image (loaded grey2) = Some grey2"
  "undo_stack (loaded grey2) = [grey2]"
  "redo_stack (loaded grey2) = []"
  by code_simp+

theorem crop_rejects_out_of_bounds_witness:
  "pixmap (image_label (loaded grey2)) = Some (QSize 2 1) \<and>
   list_ex (outside (QSize 2 1))
     (corners (rel_x (image_label (loaded grey2)) (QSize 2 1) (normalized (QRect (QPoint 1 0) (QPoint 2 0))))
              (rel_y (image_label (loaded grey2)) (QSize 2 1) (normalized (QRect (QPoint 1 0) (QPoint 2 0))))
              (normalized (QRect (QPoint 1 0) (QPoint 2 0)))) \<and>
   fst (crop_image (normalized (QRect (QPoint 1 0) (QPoint 2 0))) (loaded grey2))
     = MessageBox Warning ''Crop'' ''Selected area is out of image bounds.'' \<and>
   current_image (snd (crop_image (normalized (QRect (QPoint 1 0) (QPoint 2 0))) (loaded grey2))) = Some grey2 \<and>
   undo_stack (snd (crop_image (normalized (QRect (QPoint 1 0) (QPoint 2 0))) (loaded grey2))) = [grey2] \<and>
   redo_stack (snd (crop_image (normalized (QRect (QPoint 1 0) (QPoint 2 0))) (loaded grey2))) = []"
proof -
  have a: "pixmap (image_label (loaded grey2)) = Some (QSize 2 1)"
    by (rule loaded_grey2)
  have b: "list_ex (outside (QSize 2 1))
     (corners (rel_x (image_label (loaded grey2)) (QSize 2 1) (normalized (QRect (QPoint 1 0) (QPoint 2 0))))
              (rel_y (image_label (loaded grey2)) (QSize 2 1) (normalized (QRect (QPoint 1 0) (QPoint 2 0))))
              (normalized (QRect (QPoint 1 0) (QPoint 2 0))))"
    by code_simp
  from crop_rejects_out_of_bounds [OF a b] a b show ?thesis
    by (simp only: loaded_grey2 simp_thms)
qed

section \<open>Crop: the result\<close>

lemma crop_image_accepted:
  assumes "pixmap (image_label s) = Some pixmap_size" and "current_image s = Some im"
    and "0 < size_width pixmap_size" and "0 < size_height pixmap_size"
    and "\<not> out_of_bounds (rel_x (image_label s) pixmap_size rect) (rel_y (image_label s) pixmap_size rect) rect pixmap_size"
  shows "fst (crop_image rect s) = Silent"
    and "current_image (snd (crop_image rect s)) =
           Some (Image_crop im
                   (crop_box (rel_x (image_label s) pixmap_size rect) (rel_y (image_label s) pixmap_size rect)
                      rect (scale_x im pixmap_size) (scale_y im pixmap_size)))"
    and "undo_stack (snd (crop_image rect s)) = undo_stack s @ [im]"
    and "redo_stack (snd (crop_image rect s)) = []"
  using assms
  by (simp_all add: crop_image_def rel_x_def rel_y_def Let_def push_undo_def Image_copy_def)



lemma py_int_mono: "a \<le> b \<Longrightarrow> py_int a \<le> py_int b"
  by (auto simp: py_int_def intro: floor_mono ceiling_mono)
     (meson ceiling_le_zero floor_le_ceiling le_floor_iff of_int_0 order_trans nle_le zero_le_floor)+









section \<open>Grayscale\<close>

lemma band_single [simp]: "band [v] 0 = v"
  by (simp add: band_def)

lemma grayscale_conversion:
  "Image_convert Mode_RGB (Image_convert Mode_L im) = grey_of im"
  by (cases "mode im") (simp_all add: Image_convert_def Image_copy_def grey_of_def comp_def)

lemma grey_of_display:
  "pixels (Image_convert Mode_RGBA (grey_of im)) =
     map (\<lambda>p. [luminance (mode im) p, luminance (mode im) p, luminance (mode im) p, 255]) (pixels im)"
  by (simp add: Image_convert_def grey_of_def comp_def band_def)

text \<open>
  C9, as the code has it. The Grayscale filter is \<^verbatim>\<open>convert("L").convert("RGB")\<close>: the
  result is an RGB image of the same size whose three bands at every pixel equal the
  luminance of the input pixel. It has no alpha band, whatever the mode of the input;
  on display (\<^verbatim>\<open>pil2pixmap\<close> converts to RGBA) every pixel is opaque.
\<close>

theorem grayscale_drops_alpha:
  assumes "current_image s = Some im"
  shows "fst (apply_filter lib ''Grayscale'' s) = Silent \<and>
         current_image (snd (apply_filter lib ''Grayscale'' s)) = Some (grey_of im) \<and>
         mode (grey_of im) = Mode_RGB \<and> bands (mode (grey_of im)) = 3 \<and>
         width (grey_of im) = width im \<and> height (grey_of im) = height im \<and>
         pixels (grey_of im) =
           map (\<lambda>p. [luminance (mode im) p, luminance (mode im) p, luminance (mode im) p]) (pixels im) \<and>
         pixels (Image_convert Mode_RGBA (grey_of im)) =
           map (\<lambda>p. [luminance (mode im) p, luminance (mode im) p, luminance (mode im) p, 255]) (pixels im)"
proof -
  have "filtered lib ''Grayscale'' im = Inr (grey_of im)"
    by (simp add: filtered_def grayscale_conversion)
  with assms have "apply_filter lib ''Grayscale'' s
      = (Silent, update_display ((push_undo s)\<lparr>current_image := Some (grey_of im)\<rparr>))"
    by (simp add: apply_filter_def)
  then show ?thesis
    by (simp add: grey_of_display) (simp add: grey_of_def)
qed

lemma loaded_current: "current_image (loaded im) = Some im"
  by (simp add: loaded_def)

theorem grayscale_drops_alpha_witness:
  "current_image (loaded rgba1) = Some rgba1 \<and>
   fst (apply_filter unavailable ''Grayscale'' (loaded rgba1)) = Silent \<and>
   current_image (snd (apply_filter unavailable ''Grayscale'' (loaded rgba1))) = Some (grey_of rgba1) \<and>
   pixels (grey_of rgba1) = [[18, 18, 18]] \<and>
   pixels (Image_convert Mode_RGBA (grey_of rgba1)) = [[18, 18, 18, 255]]"
proof -
  have a: "current_image (loaded rgba1) = Some rgba1"
    by (rule loaded_current)
  have l: "luminance (mode rgba1) [10, 20, 30, 128] = 18"
    by (simp add: rgba1_def band_def L24_def)
  have p: "pixels rgba1 = [[10, 20, 30, 128]]"
    by (simp add: rgba1_def)
  note t = grayscale_drops_alpha [OF a, of unavailable]
  have "pixels (grey_of rgba1) = [[18, 18, 18]]"
    using t unfolding p by (simp only: l list.map)
  moreover have "pixels (Image_convert Mode_RGBA (grey_of rgba1)) = [[18, 18, 18, 255]]"
    using t unfolding p by (simp only: l list.map)
  ultimately show ?thesis
    using t a by blast
qed

text \<open>
  C9 as stated fails: the pixel (10, 20, 30) with alpha 128 becomes (18, 18, 18) in an
  RGB image; its alpha is gone, and the displayed pixel has alpha 255.
\<close>

theorem grayscale_alpha_counterexample:
  "map (alpha (mode rgba1)) (pixels rgba1) = [128] \<and>
   current_image (snd (apply_filter unavailable ''Grayscale'' (loaded rgba1)))
     = Some \<lparr>mode = Mode_RGB, width = 1, height = 1, pixels = [[18, 18, 18]]\<rparr> \<and>
   map_option (\<lambda>out. pixels (Image_convert Mode_RGBA out))
     (current_image (snd (apply_filter unavailable ''Grayscale'' (loaded rgba1))))
     = Some [[18, 18, 18, 255]]"
proof -
  have a: "map (alpha (mode rgba1)) (pixels rgba1) = [128]"
    by (simp add: rgba1_def band_def)
  have b: "current_image (snd (apply_filter unavailable ''Grayscale'' (loaded rgba1)))
     = Some \<lparr>mode = Mode_RGB, width = 1, height = 1, pixels = [[18, 18, 18]]\<rparr>"
    by (simp add: apply_filter_def loaded_current filtered_def grayscale_conversion grey_of_def
          rgba1_def band_def L24_def)
  have c: "pixels (Image_convert Mode_RGBA
              \<lparr>mode = Mode_RGB, width = 1, height = 1, pixels = [[18, 18, 18]]\<rparr>)
           = [[18, 18, 18, 255]]"
    by (simp add: Image_convert_def band_def)
  show ?thesis
    unfolding b using a c by simp
qed

section \<open>Quarter turns\<close>

lemma new_image_fields [simp]:
  "mode (new_image m w h f) = m"
  "width (new_image m w h f) = w"
  "height (new_image m w h f) = h"
  by (simp_all add: new_image_def)

lemma index_in_range:
  fixes x y w h :: nat
  assumes "x < w" and "y < h"
  shows "y * w + x < w * h"
proof -
  have "y * w + x < y * w + w" using assms(1) by simp
  also have "\<dots> = (y + 1) * w" by simp
  also have "\<dots> \<le> h * w" using assms(2) by (intro mult_le_mono1) simp
  finally show ?thesis by (simp add: mult.commute)
qed

lemma getpixel_new_image:
  assumes "x < w" and "y < h"
  shows "getpixel (new_image m w h f) (x, y) = Inr (f (x, y))"
proof -
  have "y * w + x < w * h"
    using assms by (rule index_in_range)
  then show ?thesis
    using assms by (simp add: getpixel_def new_image_def)
qed

lemma getpixel_px: "x < width im \<Longrightarrow> y < height im \<Longrightarrow> getpixel im (x, y) = Inr (px im (x, y))"
  by (simp add: getpixel_def px_def)

lemma py_fmod_quarter_turns:
  "py_fmod (- 90) 360 = 270" "py_fmod (- 180) 360 = 180" "py_fmod (- 270) 360 = 90"
  by (simp_all add: py_fmod_def)

lemma Image_rotate_minus_90:
  "Image_rotate lib im (- 90) True = Inr (Image_transpose ROTATE_270 im)"
  by (simp add: Image_rotate_def py_fmod_quarter_turns)

lemma ROTATE_270_pixel:
  assumes "x < height im" and "y < width im"
  shows "getpixel (Image_transpose ROTATE_270 im) (x, y) = getpixel im (y, height im - 1 - x)"
proof -
  have "getpixel (Image_transpose ROTATE_270 im) (x, y) = Inr (px im (y, height im - 1 - x))"
    using assms by (simp add: getpixel_new_image)
  moreover have "getpixel im (y, height im - 1 - x) = Inr (px im (y, height im - 1 - x))"
    using assms by (intro getpixel_px) simp_all
  ultimately show ?thesis
    by simp
qed

section \<open>Truncation in crop and in strokes\<close>

text \<open>
  Python's \<^verbatim>\<open>int()\<close> and the C cast agree: both drop the fraction toward zero.
\<close>

lemma py_int_truncates: "real_of_int (py_int q) = sgn q * real_of_int \<lfloor>\<bar>q\<bar>\<rfloor>"
proof (cases "0 \<le> q")
  case True
  then show ?thesis
    by (cases "q = 0") (simp_all add: py_int_def sgn_if)
next
  case False
  then have "\<lceil>q\<rceil> = - \<lfloor>- q\<rfloor>"
    by (simp add: ceiling_def)
  with False show ?thesis
    by (simp add: py_int_def sgn_if)
qed

lemma c_int_cast_py_int: "c_int_cast d = py_int d"
  by (cases "d = 0") (auto simp: c_int_cast_def py_int_def ceiling_def)

lemma ImageDraw_line_truncates:
  "ImageDraw_line lib im xy fill w = ImagingDrawLine lib im (map truncated xy) fill w"
  by (simp add: ImageDraw_line_def truncated_def [abs_def] c_int_cast_py_int)

lemma draw_lines_rasterise:
  "draw_lines lib fill w cs im = rasterise_paths lib fill w (map (map truncated) cs) im"
  by (induction cs arbitrary: im) (simp_all add: ImageDraw_line_truncates split: sum.split)

lemma apply_drawing_calls:
  assumes "current_image s = Some im" and "drawing_lines (image_label s) \<noteq> []"
    and "pixmap (image_label s) = Some pixmap_size"
    and "0 < size_width pixmap_size" and "0 < size_height pixmap_size"
  shows "apply_drawing lib s =
           (case rasterise_paths lib (brush_color s) (brush_size s)
                   (map (map truncated) (converted_paths (image_label s) pixmap_size im)) im of
              (Some e, im') \<Rightarrow> (Raised e, s\<lparr>current_image := Some im'\<rparr>)
            | (None, im') \<Rightarrow>
                (Silent,
                 update_display
                   (s\<lparr>current_image := Some im',
                      image_label := (image_label s)\<lparr>drawing_lines := []\<rparr>\<rparr>)))"
  using assms by (simp add: apply_drawing_def draw_lines_rasterise)

lemma crop_box_truncated:
  "crop_box (rel_x lbl pixmap_size rect) (rel_y lbl pixmap_size rect) rect
      (scale_x im pixmap_size) (scale_y im pixmap_size)
   = (fst (truncated (corner0 lbl pixmap_size im rect)), snd (truncated (corner0 lbl pixmap_size im rect)),
      fst (truncated (corner1 lbl pixmap_size im rect)), snd (truncated (corner1 lbl pixmap_size im rect)))"
  by (simp add: crop_box_def truncated_def corner0_def corner1_def convert_point_def
        rel_x_def rel_y_def algebra_simps)

text \<open>
  C8. Crop and strokes share the mapping \<open>(point - offset) * scale\<close> with
  \<open>scale = image size / pixmap size\<close>, and both truncate the mapped coordinates toward
  zero (\<open>py_int q\<close> has the sign of \<open>q\<close> and the magnitude \<open>\<lfloor>|q|\<rfloor>\<close>: no rounding).
  \<^verbatim>\<open>crop_image\<close> crops to the truncations of the two mapped corners of an accepted
  rectangle. \<^verbatim>\<open>apply_drawing\<close> rasterises, for every path of more than one point, the
  truncations of its mapped points: the floats it hands to \<^verbatim>\<open>draw.line\<close> are cast to
  integers there.
\<close>

theorem crop_and_strokes_truncate_alike:
  assumes "pixmap (image_label s) = Some pixmap_size" and "current_image s = Some im"
    and "0 < size_width pixmap_size" and "0 < size_height pixmap_size"
  shows "scale_x im pixmap_size = real (width im) / real_of_int (size_width pixmap_size) \<and>
         scale_y im pixmap_size = real (height im) / real_of_int (size_height pixmap_size) \<and>
         (\<forall>q. real_of_int (py_int q) = sgn q * real_of_int \<lfloor>\<bar>q\<bar>\<rfloor>) \<and>
         (\<not> out_of_bounds (rel_x (image_label s) pixmap_size (normalized r))
               (rel_y (image_label s) pixmap_size (normalized r)) (normalized r) pixmap_size \<longrightarrow>
          current_image (snd (crop_image (normalized r) s)) =
            Some (Image_crop im
                    (fst (truncated (corner0 (image_label s) pixmap_size im (normalized r))),
                     snd (truncated (corner0 (image_label s) pixmap_size im (normalized r))),
                     fst (truncated (corner1 (image_label s) pixmap_size im (normalized r))),
                     snd (truncated (corner1 (image_label s) pixmap_size im (normalized r)))))) \<and>
         (drawing_lines (image_label s) \<noteq> [] \<longrightarrow>
          apply_drawing lib s =
            (case rasterise_paths lib (brush_color s) (brush_size s)
                    (map (map (\<lambda>point.
                            truncated
                              (convert_point (offset_x (image_label s) pixmap_size)
                                 (offset_y (image_label s) pixmap_size)
                                 (scale_x im pixmap_size) (scale_y im pixmap_size) point)))
                       (filter (\<lambda>path. 1 < length path) (drawing_lines (image_label s)))) im of
               (Some e, im') \<Rightarrow> (Raised e, s\<lparr>current_image := Some im'\<rparr>)
             | (None, im') \<Rightarrow>
                 (Silent,
                  update_display
                    (s\<lparr>current_image := Some im',
                       image_label := (image_label s)\<lparr>drawing_lines := []\<rparr>\<rparr>))))"
proof -
  let ?rect = "normalized r"
  have scales: "scale_x im pixmap_size = real (width im) / real_of_int (size_width pixmap_size)"
    "scale_y im pixmap_size = real (height im) / real_of_int (size_height pixmap_size)"
    by (simp_all add: scale_x_def scale_y_def)
  have trunc: "\<forall>q. real_of_int (py_int q) = sgn q * real_of_int \<lfloor>\<bar>q\<bar>\<rfloor>"
    by (simp add: py_int_truncates)
  have crop: "current_image (snd (crop_image ?rect s)) =
            Some (Image_crop im
                    (fst (truncated (corner0 (image_label s) pixmap_size im ?rect)),
                     snd (truncated (corner0 (image_label s) pixmap_size im ?rect)),
                     fst (truncated (corner1 (image_label s) pixmap_size im ?rect)),
                     snd (truncated (corner1 (image_label s) pixmap_size im ?rect))))"
    if "\<not> out_of_bounds (rel_x (image_label s) pixmap_size ?rect)
               (rel_y (image_label s) pixmap_size ?rect) ?rect pixmap_size"
    using crop_image_accepted(2) [OF assms that] by (simp only: crop_box_truncated)
  have draw: "apply_drawing lib s =
            (case rasterise_paths lib (brush_color s) (brush_size s)
                    (map (map (\<lambda>point.
                            truncated
                              (convert_point (offset_x (image_label s) pixmap_size)
                                 (offset_y (image_label s) pixmap_size)
                                 (scale_x im pixmap_size) (scale_y im pixmap_size) point)))
                       (filter (\<lambda>path. 1 < length path) (drawing_lines (image_label s)))) im of
               (Some e, im') \<Rightarrow> (Raised e, s\<lparr>current_image := Some im'\<rparr>)
             | (None, im') \<Rightarrow>
                 (Silent,
                  update_display
                    (s\<lparr>current_image := Some im',
                       image_label := (image_label s)\<lparr>drawing_lines := []\<rparr>\<rparr>)))"
    if "drawing_lines (image_label s) \<noteq> []"
    using apply_drawing_calls [OF assms(2) that assms(1) assms(3) assms(4), of lib]
    by (simp add: converted_paths_def comp_def)
  from scales trunc crop draw show ?thesis
    by blast
qed

lemma offset_session_state:
  "pixmap (image_label offset_session) = Some (QSize 2 1)"
  "current_image offset_session = Some grey2"
  "drawing_lines (image_label offset_session) = [[QPoint 0 0, QPoint 2 0]]"
  "label_size (image_label offset_session) = QSize 3 1"
  "brush_color offset_session = ''#0000ff''"
  "brush_size offset_session = 3"
  by code_simp+

theorem crop_and_strokes_truncate_alike_witness:
  "pixmap (image_label offset_session) = Some (QSize 2 1) \<and>
   current_image offset_session = Some grey2 \<and>
   0 < size_width (QSize 2 1) \<and> 0 < size_height (QSize 2 1) \<and>
   \<not> out_of_bounds (rel_x (image_label offset_session) (QSize 2 1) (normalized (QRect (QPoint 1 0) (QPoint 1 0))))
        (rel_y (image_label offset_session) (QSize 2 1) (normalized (QRect (QPoint 1 0) (QPoint 1 0))))
        (normalized (QRect (QPoint 1 0) (QPoint 1 0))) (QSize 2 1) \<and>
   drawing_lines (image_label offset_session) \<noteq> [] \<and>
   corner0 (image_label offset_session) (QSize 2 1) grey2 (normalized (QRect (QPoint 1 0) (QPoint 1 0)))
     = (1 / 2, 0) \<and>
   current_image (snd (crop_image (normalized (QRect (QPoint 1 0) (QPoint 1 0))) offset_session))
     = Some (Image_crop grey2 (0, 0, 1, 1)) \<and>
   converted_paths (image_label offset_session) (QSize 2 1) grey2 = [[(- 1 / 2, 0), (3 / 2, 0)]] \<and>
   apply_drawing unavailable offset_session
     = (case rasterise_paths unavailable ''#0000ff'' 3 [[(0, 0), (1, 0)]] grey2 of
          (Some e, im') \<Rightarrow> (Raised e, offset_session\<lparr>current_image := Some im'\<rparr>)
        | (None, im') \<Rightarrow>
            (Silent,
             update_display
               (offset_session\<lparr>current_image := Some im',
                  image_label := (image_label offset_session)\<lparr>drawing_lines := []\<rparr>\<rparr>)))"
proof -
  let ?r = "QRect (QPoint 1 0) (QPoint 1 0)"
  have a: "pixmap (image_label offset_session) = Some (QSize 2 1)"
    and b: "current_image offset_session = Some grey2"
    by (rule offset_session_state)+
  have c: "0 < size_width (QSize 2 1)" and d: "0 < size_height (QSize 2 1)"
    by simp_all
  have e: "\<not> out_of_bounds (rel_x (image_label offset_session) (QSize 2 1) (normalized ?r))
        (rel_y (image_label offset_session) (QSize 2 1) (normalized ?r))
        (normalized ?r) (QSize 2 1)"
    by code_simp
  have f: "drawing_lines (image_label offset_session) \<noteq> []"
    by (simp add: offset_session_state)
  have c0: "corner0 (image_label offset_session) (QSize 2 1) grey2 (normalized ?r) = (1 / 2, 0)"
    and c1: "corner1 (image_label offset_session) (QSize 2 1) grey2 (normalized ?r) = (3 / 2, 1)"
    by (simp_all add: corner0_def corner1_def convert_point_def offset_x_def offset_y_def
          scale_x_def scale_y_def offset_session_state grey2_def normalized_def QRect_def
          rect_x_def rect_y_def rect_width_def rect_height_def)
  have k: "truncated (1 / 2, 0) = (0, 0)" "truncated (3 / 2, 1) = (1, 1)"
    "truncated (- 1 / 2, 0) = (0, 0)" "truncated (3 / 2, 0) = (1, 0)"
    by (simp_all add: truncated_def py_int_def ceiling_def)
  have conv: "converted_paths (image_label offset_session) (QSize 2 1) grey2
              = [[(- 1 / 2, 0), (3 / 2, 0)]]"
    by (simp add: converted_paths_def convert_point_def offset_x_def offset_y_def scale_x_def
          scale_y_def offset_session_state grey2_def)
  have pts: "map (map (\<lambda>point.
                  truncated
                    (convert_point (offset_x (image_label offset_session) (QSize 2 1))
                       (offset_y (image_label offset_session) (QSize 2 1))
                       (scale_x grey2 (QSize 2 1)) (scale_y grey2 (QSize 2 1)) point)))
                (filter (\<lambda>path. 1 < length path) (drawing_lines (image_label offset_session)))
              = [[(0, 0), (1, 0)]]"
    by (simp add: convert_point_def offset_x_def offset_y_def scale_x_def scale_y_def
          offset_session_state grey2_def truncated_def py_int_def ceiling_def)
  note t = crop_and_strokes_truncate_alike [OF a b c d, of ?r unavailable]
  have "current_image (snd (crop_image (normalized ?r) offset_session))
     = Some (Image_crop grey2 (0, 0, 1, 1))"
    using t e unfolding c0 c1 k by simp
  moreover have "apply_drawing unavailable offset_session
     = (case rasterise_paths unavailable ''#0000ff'' 3 [[(0, 0), (1, 0)]] grey2 of
          (Some e, im') \<Rightarrow> (Raised e, offset_session\<lparr>current_image := Some im'\<rparr>)
        | (None, im') \<Rightarrow>
            (Silent,
             update_display
               (offset_session\<lparr>current_image := Some im',
                  image_label := (image_label offset_session)\<lparr>drawing_lines := []\<rparr>\<rparr>)))"
    using t f unfolding pts by (simp add: offset_session_state)
  ultimately show ?thesis
    using a b c d e f c0 conv by blast
qed

section \<open>Rotation by any angle\<close>

lemma extent_nonneg: "0 \<le> extent_x angle im" "0 \<le> extent_y angle im"
  by (simp_all add: extent_x_def extent_y_def)

lemma nat_ceiling_bounds:
  fixes e :: real
  assumes "0 \<le> e"
  shows "e \<le> real (nat \<lceil>e\<rceil>)" and "real (nat \<lceil>e\<rceil>) < e + 2"
proof -
  have "0 \<le> \<lceil>e\<rceil>" using assms by simp
  then have eq: "real (nat \<lceil>e\<rceil>) = real_of_int \<lceil>e\<rceil>" by simp
  show "e \<le> real (nat \<lceil>e\<rceil>)" unfolding eq by (rule le_of_int_ceiling)
  have "real_of_int \<lceil>e\<rceil> < e + 1" by (rule ceiling_correct [THEN conjunct1, simplified] | linarith)
  then show "real (nat \<lceil>e\<rceil>) < e + 2" unfolding eq by linarith
qed

lemma nat_floor_less:
  fixes v :: real
  assumes "0 \<le> v" and "v < real n"
  shows "nat \<lfloor>v\<rfloor> < n"
proof -
  have "\<lfloor>v\<rfloor> < int n" using assms(2) by (simp add: floor_less_iff)
  moreover have "0 \<le> \<lfloor>v\<rfloor>" using assms(1) by simp
  ultimately show ?thesis by linarith
qed

lemma rotate_nearest_rotated: "rotated_clockwise (- a) im (rotate_nearest a im)"
proof -
  let ?w' = "nat \<lceil>extent_x (- a) im\<rceil>" and ?h' = "nat \<lceil>extent_y (- a) im\<rceil>"
  have size: "width (rotate_nearest a im) = ?w'" "height (rotate_nearest a im) = ?h'"
    "mode (rotate_nearest a im) = mode im"
    by (simp_all add: rotate_nearest_def Let_def new_image_def)
  have pix: "getpixel (rotate_nearest a im) (x, y) = getpixel im (nat \<lfloor>sx\<rfloor>, nat \<lfloor>sy\<rfloor>)"
    if "x < ?w'" "y < ?h'"
      and sp: "source_point (- a) (width im, height im) (?w', ?h') (x, y) = (sx, sy)"
      and inside: "0 \<le> sx \<and> sx < real (width im) \<and> 0 \<le> sy \<and> sy < real (height im)"
    for x y sx sy
  proof -
    have "getpixel (rotate_nearest a im) (x, y) = Inr (px im (nat \<lfloor>sx\<rfloor>, nat \<lfloor>sy\<rfloor>))"
      using that by (simp add: rotate_nearest_def Let_def getpixel_new_image)
    moreover have "nat \<lfloor>sx\<rfloor> < width im" "nat \<lfloor>sy\<rfloor> < height im"
      using inside by (simp_all add: nat_floor_less)
    ultimately show ?thesis
      by (simp add: getpixel_px)
  qed
  show ?thesis
    unfolding rotated_clockwise_def size
    using nat_ceiling_bounds [OF extent_nonneg(1), of "- a" im]
      nat_ceiling_bounds [OF extent_nonneg(2), of "- a" im] pix
    by (auto split: prod.split)
qed

lemma affine_rotates_resampling: "affine_rotates resampling"
  by (simp add: affine_rotates_def resampling_def rotate_nearest_rotated)


lemma py_fmod_range: "0 \<le> py_fmod x 360" "py_fmod x 360 < 360"
proof -
  have lo: "real_of_int \<lfloor>x / 360\<rfloor> * 360 \<le> x"
    by (rule floor_divide_lower) simp
  have hi: "x < (real_of_int \<lfloor>x / 360\<rfloor> + 1) * 360"
    by (rule floor_divide_upper) simp
  show "0 \<le> py_fmod x 360"
    using lo unfolding py_fmod_def by linarith
  show "py_fmod x 360 < 360"
    using hi unfolding py_fmod_def by linarith
qed

lemma deg_shift:
  "cos_deg (b + 360 * real_of_int n) = cos_deg b"
  "sin_deg (b + 360 * real_of_int n) = sin_deg b"
proof -
  have eq: "(b + 360 * real_of_int n) * pi / 180 = b * pi / 180 + (2 * pi) * real_of_int n"
    by (simp add: field_simps)
  show "cos_deg (b + 360 * real_of_int n) = cos_deg b"
    unfolding cos_deg_def eq by (simp add: cos_add)
  show "sin_deg (b + 360 * real_of_int n) = sin_deg b"
    unfolding sin_deg_def eq by (simp add: sin_add)
qed

lemma deg_reduce:
  "cos_deg (- py_fmod (- angle) 360) = cos_deg angle"
  "sin_deg (- py_fmod (- angle) 360) = sin_deg angle"
proof -
  have "- py_fmod (- angle) 360 = angle + 360 * real_of_int \<lfloor>- angle / 360\<rfloor>"
    by (simp add: py_fmod_def)
  then show "cos_deg (- py_fmod (- angle) 360) = cos_deg angle"
    "sin_deg (- py_fmod (- angle) 360) = sin_deg angle"
    by (simp_all only: deg_shift)
qed

lemma rotated_clockwise_cong:
  assumes "cos_deg a = cos_deg b" and "sin_deg a = sin_deg b"
  shows "rotated_clockwise a im out = rotated_clockwise b im out"
  using assms
  by (simp add: rotated_clockwise_def extent_x_def extent_y_def source_point_def)

lemma deg_values:
  "cos_deg 0 = 1" "sin_deg 0 = 0"
  "cos_deg (- 90) = 0" "sin_deg (- 90) = - 1"
  "cos_deg (- 180) = - 1" "sin_deg (- 180) = 0"
  "cos_deg (- 270) = 0" "sin_deg (- 270) = 1"
proof -
  have a: "- 90 * pi / 180 = - (pi / 2)" "- 180 * pi / 180 = - pi"
    "- 270 * pi / 180 = - (3 / 2 * pi)"
    by simp_all
  show "cos_deg 0 = 1" "sin_deg 0 = 0"
    by (simp_all add: cos_deg_def sin_deg_def)
  show "cos_deg (- 90) = 0" "sin_deg (- 90) = - 1"
    unfolding cos_deg_def sin_deg_def a by simp_all
  show "cos_deg (- 180) = - 1" "sin_deg (- 180) = 0"
    unfolding cos_deg_def sin_deg_def a by simp_all
  show "cos_deg (- 270) = 0" "sin_deg (- 270) = 1"
    unfolding cos_deg_def sin_deg_def a
    by (simp_all only: cos_minus sin_minus cos_3over2_pi sin_3over2_pi minus_minus)
qed

lemma floor_half: "nat \<lfloor>real n + 1 / 2\<rfloor> = n"
proof -
  have "\<lfloor>real n + 1 / 2\<rfloor> = int n"
    by (rule floor_unique) simp_all
  then show ?thesis by simp
qed

lemma floor_mirror:
  assumes "x < n"
  shows "nat \<lfloor>real n - real x - 1 / 2\<rfloor> = n - 1 - x"
proof -
  have "real n - real x - 1 / 2 = real (n - 1 - x) + 1 / 2"
    using assms by (simp add: of_nat_diff)
  then show ?thesis
    by (simp only: floor_half)
qed


lemma source_point_turns:
  "cos_deg a = 1 \<Longrightarrow> sin_deg a = 0 \<Longrightarrow>
     source_point a (w, h) (w, h) (x, y) = (real x + 1 / 2, real y + 1 / 2)"
  "cos_deg a = 0 \<Longrightarrow> sin_deg a = 1 \<Longrightarrow>
     source_point a (w, h) (h, w) (x, y) = (real y + 1 / 2, real h - real x - 1 / 2)"
  "cos_deg a = - 1 \<Longrightarrow> sin_deg a = 0 \<Longrightarrow>
     source_point a (w, h) (w, h) (x, y) = (real w - real x - 1 / 2, real h - real y - 1 / 2)"
  "cos_deg a = 0 \<Longrightarrow> sin_deg a = - 1 \<Longrightarrow>
     source_point a (w, h) (h, w) (x, y) = (real w - real y - 1 / 2, real x + 1 / 2)"
  by (simp_all add: source_point_def field_simps)

lemma ROTATE_90_pixel:
  assumes "x < height im" and "y < width im"
  shows "getpixel (Image_transpose ROTATE_90 im) (x, y) = getpixel im (width im - 1 - y, x)"
proof -
  have "getpixel (Image_transpose ROTATE_90 im) (x, y) = Inr (px im (width im - 1 - y, x))"
    using assms by (simp add: getpixel_new_image)
  moreover have "getpixel im (width im - 1 - y, x) = Inr (px im (width im - 1 - y, x))"
    using assms by (intro getpixel_px) simp_all
  ultimately show ?thesis
    by simp
qed

lemma ROTATE_180_pixel:
  assumes "x < width im" and "y < height im"
  shows "getpixel (Image_transpose ROTATE_180 im) (x, y)
           = getpixel im (width im - 1 - x, height im - 1 - y)"
proof -
  have "getpixel (Image_transpose ROTATE_180 im) (x, y)
          = Inr (px im (width im - 1 - x, height im - 1 - y))"
    using assms by (simp add: getpixel_new_image)
  moreover have "getpixel im (width im - 1 - x, height im - 1 - y)
          = Inr (px im (width im - 1 - x, height im - 1 - y))"
    using assms by (intro getpixel_px) simp_all
  ultimately show ?thesis
    by simp
qed

lemma transpose_fields:
  "mode (Image_transpose ROTATE_90 im) = mode im"
  "width (Image_transpose ROTATE_90 im) = height im"
  "height (Image_transpose ROTATE_90 im) = width im"
  "mode (Image_transpose ROTATE_180 im) = mode im"
  "width (Image_transpose ROTATE_180 im) = width im"
  "height (Image_transpose ROTATE_180 im) = height im"
  "mode (Image_transpose ROTATE_270 im) = mode im"
  "width (Image_transpose ROTATE_270 im) = height im"
  "height (Image_transpose ROTATE_270 im) = width im"
  by simp_all

lemma copy_rotated:
  assumes "cos_deg a = 1" and "sin_deg a = 0"
  shows "rotated_clockwise a im (Image_copy im)"
  unfolding rotated_clockwise_def Image_copy_def extent_x_def extent_y_def
  by (simp add: assms source_point_turns(1) [OF assms] floor_half)

lemma ROTATE_270_rotated:
  assumes "cos_deg a = 0" and "sin_deg a = 1"
  shows "rotated_clockwise a im (Image_transpose ROTATE_270 im)"
  unfolding rotated_clockwise_def transpose_fields extent_x_def extent_y_def
  by (simp add: assms source_point_turns(2) [OF assms] floor_half floor_mirror ROTATE_270_pixel
        del: Image_transpose.simps)

lemma ROTATE_180_rotated:
  assumes "cos_deg a = - 1" and "sin_deg a = 0"
  shows "rotated_clockwise a im (Image_transpose ROTATE_180 im)"
  unfolding rotated_clockwise_def transpose_fields extent_x_def extent_y_def
  by (simp add: assms source_point_turns(3) [OF assms] floor_mirror ROTATE_180_pixel
        del: Image_transpose.simps)

lemma ROTATE_90_rotated:
  assumes "cos_deg a = 0" and "sin_deg a = - 1"
  shows "rotated_clockwise a im (Image_transpose ROTATE_90 im)"
  unfolding rotated_clockwise_def transpose_fields extent_x_def extent_y_def
  by (simp add: assms source_point_turns(4) [OF assms] floor_half floor_mirror ROTATE_90_pixel
        del: Image_transpose.simps)

lemma Image_rotate_clockwise:
  assumes "affine_rotates lib \<or> py_fmod (- angle) 360 \<in> {0, 90, 180, 270}"
  shows "\<exists>out. Image_rotate lib im (- angle) True = Inr out \<and> rotated_clockwise angle im out"
proof -
  define a where "a = py_fmod (- angle) 360"
  have same: "rotated_clockwise angle im out = rotated_clockwise (- a) im out" for out
    unfolding a_def by (rule rotated_clockwise_cong) (simp_all only: deg_reduce)
  consider (zero) "a = 0" | (half) "a = 180" | (ccw) "a = 90" | (cw) "a = 270"
    | (other) "a \<noteq> 0 \<and> a \<noteq> 180 \<and> a \<noteq> 90 \<and> a \<noteq> 270 \<and> affine_rotates lib"
    using assms unfolding a_def by auto
  then show ?thesis
  proof cases
    case zero
    then have "Image_rotate lib im (- angle) True = Inr (Image_copy im)"
      by (simp add: Image_rotate_def a_def [symmetric])
    moreover have "rotated_clockwise (- a) im (Image_copy im)"
      unfolding zero by (rule copy_rotated) (simp_all add: deg_values)
    ultimately show ?thesis
      by (simp add: same)
  next
    case half
    then have "Image_rotate lib im (- angle) True = Inr (Image_transpose ROTATE_180 im)"
      by (simp add: Image_rotate_def a_def [symmetric])
    moreover have "rotated_clockwise (- a) im (Image_transpose ROTATE_180 im)"
      unfolding half by (rule ROTATE_180_rotated) (simp_all only: deg_values)
    ultimately show ?thesis
      by (simp add: same del: Image_transpose.simps)
  next
    case ccw
    then have "Image_rotate lib im (- angle) True = Inr (Image_transpose ROTATE_90 im)"
      by (simp add: Image_rotate_def a_def [symmetric])
    moreover have "rotated_clockwise (- a) im (Image_transpose ROTATE_90 im)"
      unfolding ccw by (rule ROTATE_90_rotated) (simp_all only: deg_values)
    ultimately show ?thesis
      by (simp add: same del: Image_transpose.simps)
  next
    case cw
    then have "Image_rotate lib im (- angle) True = Inr (Image_transpose ROTATE_270 im)"
      by (simp add: Image_rotate_def a_def [symmetric])
    moreover have "rotated_clockwise (- a) im (Image_transpose ROTATE_270 im)"
      unfolding cw by (rule ROTATE_270_rotated) (simp_all only: deg_values)
    ultimately show ?thesis
      by (simp add: same del: Image_transpose.simps)
  next
    case other
    have "0 \<le> a \<and> a < 360"
      unfolding a_def by (simp add: py_fmod_range)
    with other obtain out where "rotate_affine lib im a True = Inr out"
      and "rotated_clockwise (- a) im out"
      unfolding affine_rotates_def by blast
    moreover have "Image_rotate lib im (- angle) True = rotate_affine lib im a True"
      using other by (simp add: Image_rotate_def a_def [symmetric])
    ultimately show ?thesis
      by (simp add: same)
  qed
qed


lemma deg_90: "cos_deg 90 = 0" "sin_deg 90 = 1"
proof -
  have "(90 :: real) * pi / 180 = pi / 2"
    by simp
  then show "cos_deg 90 = 0" "sin_deg 90 = 1"
    unfolding cos_deg_def sin_deg_def by simp_all
qed

text \<open>
  C7. \<^verbatim>\<open>advanced_rotate\<close> hands PIL's counter-clockwise \<^verbatim>\<open>rotate\<close> the negated angle
  with \<^verbatim>\<open>expand=True\<close>. For every angle the new current image is the old one turned
  clockwise by that angle about its centre on a canvas that bounds the turned image:
  for the angles that PIL reduces to 0, 90, 180 or 270 whatever the library does, and
  for every other angle when PIL's affine rotation path keeps its contract (it turns
  counter-clockwise by the angle it is given). For the angle 90 the sizes are swapped
  and the output pixel \<open>(x, y)\<close> is the input pixel \<open>(y, H - 1 - x)\<close>; for a 100 x 100
  input the output is 100 x 100 and its pixel (0, 0) is the input pixel (0, 99).
\<close>

theorem rotate_is_clockwise:
  assumes "current_image s = Some im"
  shows "(affine_rotates lib \<or> py_fmod (- angle) 360 \<in> {0, 90, 180, 270} \<longrightarrow>
            fst (advanced_rotate lib (Some angle) s) = Silent \<and>
            (\<exists>out. current_image (snd (advanced_rotate lib (Some angle) s)) = Some out \<and>
               rotated_clockwise angle im out)) \<and>
         fst (advanced_rotate lib (Some 90) s) = Silent \<and>
         (\<exists>out. current_image (snd (advanced_rotate lib (Some 90) s)) = Some out \<and>
            rotated_clockwise 90 im out \<and>
            mode out = mode im \<and> width out = height im \<and> height out = width im \<and>
            (\<forall>x y. x < width out \<and> y < height out \<longrightarrow>
               getpixel out (x, y) = getpixel im (y, height im - 1 - x)) \<and>
            (width im = 100 \<and> height im = 100 \<longrightarrow>
               width out = 100 \<and> height out = 100 \<and> getpixel out (0, 0) = getpixel im (0, 99)))"
proof -
  have run: "advanced_rotate lib (Some a) s
      = assign_image (Image_rotate lib im (- a) True) (push_undo s)" for a
    using assms by (simp add: advanced_rotate_def)
  have general: "fst (advanced_rotate lib (Some angle) s) = Silent \<and>
            (\<exists>out. current_image (snd (advanced_rotate lib (Some angle) s)) = Some out \<and>
               rotated_clockwise angle im out)"
    if "affine_rotates lib \<or> py_fmod (- angle) 360 \<in> {0, 90, 180, 270}"
  proof -
    from Image_rotate_clockwise [OF that, of im] obtain out
      where "Image_rotate lib im (- angle) True = Inr out" and "rotated_clockwise angle im out"
      by blast
    then show ?thesis
      by (simp add: run)
  qed
  let ?out = "Image_transpose ROTATE_270 im"
  have "advanced_rotate lib (Some 90) s
      = (Silent, update_display ((push_undo s)\<lparr>current_image := Some ?out\<rparr>))"
    using run [of 90] by (simp add: Image_rotate_minus_90)
  then have res: "fst (advanced_rotate lib (Some 90) s) = Silent"
    "current_image (snd (advanced_rotate lib (Some 90) s)) = Some ?out"
    by simp_all
  have rot: "rotated_clockwise 90 im ?out"
    by (rule ROTATE_270_rotated) (rule deg_90)+
  have dims: "mode ?out = mode im" "width ?out = height im" "height ?out = width im"
    by simp_all
  have pix: "getpixel ?out (x, y) = getpixel im (y, height im - 1 - x)"
    if "x < width ?out \<and> y < height ?out" for x y
    using that unfolding dims by (intro ROTATE_270_pixel) simp_all
  have square: "width ?out = 100 \<and> height ?out = 100 \<and> getpixel ?out (0, 0) = getpixel im (0, 99)"
    if "width im = 100 \<and> height im = 100"
    using that ROTATE_270_pixel [of 0 im 0] unfolding dims by simp
  from general res rot dims pix square show ?thesis
    by blast
qed

lemma ramp100_corners:
  "getpixel ramp100 (0, 99) = Inr [99]" "getpixel ramp100 (99, 0) = Inr [0]"
  by (simp_all add: ramp100_def getpixel_new_image)

theorem rotate_is_clockwise_witness:
  "current_image (loaded ramp100) = Some ramp100 \<and>
   affine_rotates resampling \<and>
   width ramp100 = 100 \<and> height ramp100 = 100 \<and>
   getpixel ramp100 (0, 99) = Inr [99] \<and> getpixel ramp100 (99, 0) = Inr [0] \<and>
   fst (advanced_rotate resampling (Some 45) (loaded ramp100)) = Silent \<and>
   (\<exists>out. current_image (snd (advanced_rotate resampling (Some 45) (loaded ramp100))) = Some out \<and>
      rotated_clockwise 45 ramp100 out) \<and>
   fst (advanced_rotate resampling (Some 90) (loaded ramp100)) = Silent \<and>
   (\<exists>out. current_image (snd (advanced_rotate resampling (Some 90) (loaded ramp100))) = Some out \<and>
      rotated_clockwise 90 ramp100 out \<and>
      width out = 100 \<and> height out = 100 \<and> getpixel out (0, 0) = Inr [99])"
proof -
  have a: "current_image (loaded ramp100) = Some ramp100"
    by (rule loaded_current)
  have b: "affine_rotates resampling"
    by (rule affine_rotates_resampling)
  have c: "width ramp100 = 100 \<and> height ramp100 = 100"
    by (simp add: ramp100_def)
  note c1 = ramp100_corners(1) and c2 = ramp100_corners(2)
  from rotate_is_clockwise [OF a, of resampling 45] b
  have "fst (advanced_rotate resampling (Some 45) (loaded ramp100)) = Silent \<and>
        (\<exists>out. current_image (snd (advanced_rotate resampling (Some 45) (loaded ramp100))) = Some out \<and>
           rotated_clockwise 45 ramp100 out)"
    by blast
  moreover from rotate_is_clockwise [OF a, of resampling 90] c
  have "fst (advanced_rotate resampling (Some 90) (loaded ramp100)) = Silent \<and>
        (\<exists>out. current_image (snd (advanced_rotate resampling (Some 90) (loaded ramp100))) = Some out \<and>
           rotated_clockwise 90 ramp100 out \<and>
           width out = 100 \<and> height out = 100 \<and> getpixel out (0, 0) = Inr [99])"
    unfolding c1 [symmetric] by blast
  ultimately show ?thesis
    using a b c c1 c2 by blast
qed

end
